theory Spec2Isabelle
  imports Main "HOL-Library.AList"
begin

section \<open>JavaScript values\<close>

text \<open>
  The parser and the normalizer work on untyped JavaScript values, so the embedding has one
  type of values. A function value is known by its \<^verbatim>\<open>name\<close> property only, which is all the
  source reads of it. A plain object is the list of its own enumerable properties in the
  order \<^verbatim>\<open>Object.entries\<close> yields them; a property read takes the first entry of a key.
  Numbers are the integer-valued ones and \<^verbatim>\<open>NaN\<close>. Values are finite trees: cyclic object
  graphs, getters and proxies are outside the model.
\<close>

datatype jsval =
    JUndefined
  | JNull
  | JBool bool
  | JNum int
  | JNaN
  | JStr string
  | JFun string
  | JArr "jsval list"
  | JObj "(string \<times> jsval) list"

type_synonym props = "(string \<times> jsval) list"

text \<open>ToBoolean: what \<^verbatim>\<open>if (v)\<close>, \<^verbatim>\<open>!v\<close>, \<^verbatim>\<open>v || w\<close> and \<^verbatim>\<open>v && w\<close> test.\<close>

fun truthy :: "jsval \<Rightarrow> bool" where
  "truthy JUndefined = False"
| "truthy JNull = False"
| "truthy (JBool b) = b"
| "truthy (JNum n) = (n \<noteq> 0)"
| "truthy JNaN = False"
| "truthy (JStr s) = (s \<noteq> [])"
| "truthy (JFun f) = True"
| "truthy (JArr xs) = True"
| "truthy (JObj kvs) = True"

definition js_or :: "jsval \<Rightarrow> jsval \<Rightarrow> jsval" where
  "js_or a b = (if truthy a then a else b)"

definition js_and :: "jsval \<Rightarrow> jsval \<Rightarrow> jsval" where
  "js_and a b = (if truthy a then b else a)"

definition nullish :: "jsval \<Rightarrow> bool" where
  "nullish v = (v = JUndefined \<or> v = JNull)"

text \<open>\<^verbatim>\<open>typeof v === 'object'\<close> holds of null, of arrays and of plain objects.\<close>

fun typeof_object :: "jsval \<Rightarrow> bool" where
  "typeof_object JNull = True"
| "typeof_object (JArr xs) = True"
| "typeof_object (JObj kvs) = True"
| "typeof_object v = False"

fun isArray :: "jsval \<Rightarrow> bool" where
  "isArray (JArr xs) = True"
| "isArray v = False"

definition own :: "props \<Rightarrow> string \<Rightarrow> jsval" where
  "own kvs k = (case map_of kvs k of Some v \<Rightarrow> v | None \<Rightarrow> JUndefined)"

text \<open>
  \<^verbatim>\<open>v.k\<close> for the fixed keys the source reads (\<^verbatim>\<open>type\<close>, \<^verbatim>\<open>enum\<close>, \<^verbatim>\<open>ref\<close>, \<^verbatim>\<open>required\<close>,
  \<^verbatim>\<open>name\<close>, ...). None of them is inherited from a built-in prototype, except that a
  function has a \<^verbatim>\<open>name\<close>. Reading a property of \<^verbatim>\<open>null\<close> or \<^verbatim>\<open>undefined\<close> throws in
  JavaScript: every caller below either guards the read the way the source does or
  returns the TypeError itself.
\<close>

fun getProp :: "jsval \<Rightarrow> string \<Rightarrow> jsval" where
  "getProp (JObj kvs) k = own kvs k"
| "getProp (JFun n) k = (if k = ''name'' then JStr n else JUndefined)"
| "getProp v k = JUndefined"

text \<open>\<^verbatim>\<open>k in v\<close> for the key \<^verbatim>\<open>default\<close>, which no prototype provides.\<close>

fun hasProp :: "string \<Rightarrow> jsval \<Rightarrow> bool" where
  "hasProp k (JObj kvs) = (k \<in> fst ` set kvs)"
| "hasProp k v = False"

text \<open>The own enumerable properties copied by an object spread \<^verbatim>\<open>{...v}\<close>.\<close>

fun spread :: "jsval \<Rightarrow> props" where
  "spread (JObj kvs) = kvs"
| "spread v = []"

text \<open>The elements of an array value, for reading a result.\<close>

fun elements :: "jsval \<Rightarrow> jsval list" where
  "elements (JArr xs) = xs"
| "elements v = []"

section \<open>core/normalizer.js: the standard types\<close>

definition STRING :: jsval where "STRING = JStr ''string''"
definition NUMBER :: jsval where "NUMBER = JStr ''number''"
definition BOOLEAN :: jsval where "BOOLEAN = JStr ''boolean''"
definition DATE :: jsval where "DATE = JStr ''Date''"
definition ARRAY :: jsval where "ARRAY = JStr ''array''"
definition OBJECT :: jsval where "OBJECT = JStr ''object''"
definition ANY :: jsval where "ANY = JStr ''any''"

lemmas STANDARD_TYPES =
  STRING_def NUMBER_def BOOLEAN_def DATE_def ARRAY_def OBJECT_def ANY_def

section \<open>The Mongoose parser: extractFieldType\<close>

definition MONGOOSE_TYPE_MAP :: props where
  "MONGOOSE_TYPE_MAP =
    [(''String'', STRING),
     (''Number'', NUMBER),
     (''Boolean'', BOOLEAN),
     (''Date'', DATE),
     (''Buffer'', STRING),
     (''ObjectId'', STRING),
     (''Mixed'', JStr ''Record<string, any>''),
     (''Decimal128'', NUMBER),
     (''Map'', OBJECT),
     (''Schema.Types.String'', STRING),
     (''Schema.Types.Number'', NUMBER),
     (''Schema.Types.Boolean'', BOOLEAN),
     (''Schema.Types.Date'', DATE),
     (''Schema.Types.ObjectId'', STRING),
     (''Schema.Types.Mixed'', JStr ''Record<string, any>''),
     (''Schema.Types.Decimal128'', NUMBER),
     (''Schema.Types.Map'', OBJECT)]"

text \<open>
  \<^verbatim>\<open>MONGOOSE_TYPE_MAP\<close> is an object literal, so its prototype is \<^verbatim>\<open>Object.prototype\<close> and
  the computed read \<^verbatim>\<open>MONGOOSE_TYPE_MAP[typeName]\<close> also finds the members every plain
  object inherits. They are the built-in methods (function values) and the accessor
  \<^verbatim>\<open>__proto__\<close>, whose value is \<^verbatim>\<open>Object.prototype\<close> itself, an object with no enumerable
  property.
\<close>

definition Object_prototype :: props where
  "Object_prototype =
    [(''constructor'', JFun ''Object''),
     (''hasOwnProperty'', JFun ''hasOwnProperty''),
     (''isPrototypeOf'', JFun ''isPrototypeOf''),
     (''propertyIsEnumerable'', JFun ''propertyIsEnumerable''),
     (''toLocaleString'', JFun ''toLocaleString''),
     (''toString'', JFun ''toString''),
     (''valueOf'', JFun ''valueOf''),
     (''__defineGetter__'', JFun ''__defineGetter__''),
     (''__defineSetter__'', JFun ''__defineSetter__''),
     (''__lookupGetter__'', JFun ''__lookupGetter__''),
     (''__lookupSetter__'', JFun ''__lookupSetter__''),
     (''__proto__'', JObj [])]"

definition typeMapLookup :: "string \<Rightarrow> jsval" where
  "typeMapLookup typeName =
    (case map_of MONGOOSE_TYPE_MAP typeName of
       Some v \<Rightarrow> v
     | None \<Rightarrow> own Object_prototype typeName)"

lemma own_size:
  "truthy (own kvs k) \<Longrightarrow> size (own kvs k) < Suc (size_list (size_prod (\<lambda>_. 0) size) kvs)"
  by (induction kvs) (auto simp: own_def)

text \<open>
  One equation per shape, in the order of the source's tests: array, object with a truthy
  \<^verbatim>\<open>type\<close>, object with a truthy \<^verbatim>\<open>enum\<close>, function, string, anything else. An object
  literal that names a key with an undefined value keeps the key, as in the source.
\<close>

function (sequential) extractFieldType :: "jsval \<Rightarrow> jsval" where
  "extractFieldType (JArr []) =
     JObj [(''type'', ARRAY), (''isArray'', JBool True), (''arrayOf'', ANY)]"
| "extractFieldType (JArr (elem # rest)) =
     (let innerType = extractFieldType elem in
      JObj [(''type'', ARRAY),
            (''isArray'', JBool True),
            (''arrayOf'', getProp innerType ''type''),
            (''isReference'', getProp innerType ''isReference''),
            (''referenceTo'', getProp innerType ''referenceTo'')])"
| "extractFieldType (JObj kvs) =
     (if truthy (own kvs ''type'') then
        (let typeInfo = extractFieldType (own kvs ''type'') in
         if truthy (own kvs ''enum'') then
           JObj (AList.update ''enumValues'' (own kvs ''enum'')
                  (AList.update ''isEnum'' (JBool True) (spread typeInfo)))
         else if truthy (own kvs ''ref'') then
           JObj (AList.update ''referenceTo'' (own kvs ''ref'')
                  (AList.update ''isReference'' (JBool True) (spread typeInfo)))
         else typeInfo)
      else if truthy (own kvs ''enum'') then
        JObj [(''type'', STRING), (''isEnum'', JBool True), (''enumValues'', own kvs ''enum'')]
      else JObj [(''type'', ANY), (''isReference'', JBool False)])"
| "extractFieldType (JFun typeName) =
     JObj [(''type'', js_or (typeMapLookup typeName) ANY), (''isReference'', JBool False)]"
| "extractFieldType (JStr fieldDef) =
     JObj [(''type'', js_or (typeMapLookup fieldDef) ANY), (''isReference'', JBool False)]"
| "extractFieldType fieldDef = JObj [(''type'', ANY), (''isReference'', JBool False)]"
  by pat_completeness auto
termination
  by (relation "measure size") (auto dest: own_size)

section \<open>The Mongoose parser: parseSchemaFields\<close>

definition startsWith :: "string \<Rightarrow> string \<Rightarrow> bool" where
  "startsWith s p = (take (length p) s = p)"

text \<open>
  \<^verbatim>\<open>schemaObj\<close> and \<^verbatim>\<open>schemaPaths\<close> are plain objects, given by their entries; the loop over
  \<^verbatim>\<open>Object.entries(schemaObj)\<close> is the recursion over the list. The three tests
  \<^verbatim>\<open>fieldDef && typeof fieldDef === 'object'\<close> are written as in the source. The test for a
  nested object adds \<^verbatim>\<open>!Array.isArray(fieldDef)\<close>, which leaves exactly the plain objects,
  hence the case distinction there. An inherited member read by \<^verbatim>\<open>schemaPaths[fieldName]\<close>
  is a built-in function or \<^verbatim>\<open>Object.prototype\<close>, neither has \<^verbatim>\<open>isRequired\<close>, so the own
  properties decide the second test.
\<close>

function parseSchemaFields :: "props \<Rightarrow> props \<Rightarrow> jsval list" where
  "parseSchemaFields [] schemaPaths = []"
| "parseSchemaFields ((fieldName, fieldDef) # rest) schemaPaths =
    (if startsWith fieldName ''_'' then parseSchemaFields rest schemaPaths
     else
      (let typeInfo = extractFieldType fieldDef;
           pathInfo = own schemaPaths fieldName;
           required0 =
             (if truthy fieldDef \<and> typeof_object fieldDef
              then getProp fieldDef ''required'' = JBool True else False);
           required =
             (if truthy pathInfo \<and> truthy (getProp pathInfo ''isRequired'')
              then True else required0);
           defaultValue =
             (if truthy fieldDef \<and> typeof_object fieldDef \<and> hasProp ''default'' fieldDef
              then getProp fieldDef ''default'' else JNull);
           isUnique =
             js_and fieldDef
               (js_and (JBool (typeof_object fieldDef))
                  (JBool (getProp fieldDef ''unique'' = JBool True)));
           nested =
             (case fieldDef of
                JObj kvs \<Rightarrow>
                  if \<not> truthy (own kvs ''type'') \<and> \<not> truthy (own kvs ''enum'')
                  then JArr (parseSchemaFields kvs []) else JNull
              | _ \<Rightarrow> JNull);
           isEnumArray = js_and (getProp typeInfo ''isArray'') (getProp typeInfo ''isEnum'')
       in JObj [(''name'', JStr fieldName),
                (''type'', if truthy nested then OBJECT else getProp typeInfo ''type''),
                (''required'', JBool required),
                (''isArray'', js_or (getProp typeInfo ''isArray'') (JBool False)),
                (''arrayOf'', js_or (getProp typeInfo ''arrayOf'') JNull),
                (''isReference'', js_or (getProp typeInfo ''isReference'') (JBool False)),
                (''referenceTo'', js_or (getProp typeInfo ''referenceTo'') JNull),
                (''isEnum'', js_or (getProp typeInfo ''isEnum'') (JBool False)),
                (''isEnumArray'', isEnumArray),
                (''enumValues'', js_or (getProp typeInfo ''enumValues'') JNull),
                (''defaultValue'', defaultValue),
                (''isUnique'', isUnique),
                (''nested'', nested)]
          # parseSchemaFields rest schemaPaths))"
  by pat_completeness auto
termination
  by (relation "measure (\<lambda>(es, ps). size_list (size_prod (\<lambda>_. 0) size) es)") auto

section \<open>core/normalizer.js\<close>

text \<open>
  What a call can throw. \<^verbatim>\<open>OpaqueCall\<close> stands for the call of a function value supplied
  by the caller (an own property named \<^verbatim>\<open>map\<close> or \<^verbatim>\<open>forEach\<close>), whose body the value
  model does not hold.
\<close>

datatype js_error = TypeError | OpaqueCall

fun mapE :: "('a \<Rightarrow> js_error + 'b) \<Rightarrow> 'a list \<Rightarrow> js_error + 'b list" where
  "mapE f [] = Inr []"
| "mapE f (x # xs) =
    (case f x of
       Inl e \<Rightarrow> Inl e
     | Inr y \<Rightarrow> (case mapE f xs of Inl e \<Rightarrow> Inl e | Inr ys \<Rightarrow> Inr (y # ys)))"

definition normalizeField :: "jsval \<Rightarrow> js_error + jsval" where
  "normalizeField field =
    (if nullish field then Inl TypeError
     else Inr (JObj
       [(''name'', getProp field ''name''),
        (''type'', js_or (getProp field ''type'') ANY),
        (''required'', JBool (getProp field ''required'' \<noteq> JBool False)),
        (''isPrimary'', js_or (getProp field ''isPrimary'') (JBool False)),
        (''isArray'', js_or (getProp field ''isArray'') (JBool False)),
        (''arrayOf'', js_or (getProp field ''arrayOf'') JNull),
        (''isEnum'', js_or (getProp field ''isEnum'') (JBool False)),
        (''enumValues'', js_or (getProp field ''enumValues'') JNull),
        (''isReference'', js_or (getProp field ''isReference'') (JBool False)),
        (''referenceTo'', js_or (getProp field ''referenceTo'') JNull),
        (''defaultValue'', js_or (getProp field ''defaultValue'') JNull),
        (''description'', js_or (getProp field ''description'') JNull),
        (''nested'', js_or (getProp field ''nested'') JNull)]))"

text \<open>
  \<^verbatim>\<open>(model.fields || []).map(normalizeField)\<close>: an array maps; any other truthy value has no
  \<^verbatim>\<open>map\<close> method, unless it is an object that carries one of its own.
\<close>

definition normalizeModel :: "jsval \<Rightarrow> js_error + jsval" where
  "normalizeModel model =
    (if nullish model then Inl TypeError
     else
      (case
         (case js_or (getProp model ''fields'') (JArr []) of
            JArr fs \<Rightarrow> mapE normalizeField fs
          | JObj kvs \<Rightarrow> (case own kvs ''map'' of JFun f \<Rightarrow> Inl OpaqueCall | _ \<Rightarrow> Inl TypeError)
          | _ \<Rightarrow> Inl TypeError)
       of
         Inl e \<Rightarrow> Inl e
       | Inr fields \<Rightarrow>
           Inr (JObj
             [(''modelName'', getProp model ''modelName''),
              (''tableName'', js_or (getProp model ''tableName'') (getProp model ''modelName'')),
              (''fields'', JArr fields),
              (''description'', js_or (getProp model ''description'') JNull),
              (''source'', js_or (getProp model ''source'') (JStr ''unknown'')),
              (''filePath'', js_or (getProp model ''filePath'') JNull)])))"

text \<open>
  The messages of \<^verbatim>\<open>validateSchema\<close>, with the two template holes (the index, the field's
  name) kept as data instead of being printed into the text.
\<close>

datatype message =
    Model_must_have_a_name
  | Model_must_have_fields_array
  | Field_at_index_must_have_a_name nat
  | Field_must_have_a_type jsval

record validation =
  valid :: bool
  errors :: "message list"

text \<open>
  The callback of \<^verbatim>\<open>forEach\<close>, run over the elements from \<^verbatim>\<open>index\<close> on. Reading
  \<^verbatim>\<open>field.name\<close> of a null or undefined element throws.
\<close>

fun forEachField :: "nat \<Rightarrow> jsval list \<Rightarrow> js_error + message list" where
  "forEachField index [] = Inr []"
| "forEachField index (field # rest) =
    (if nullish field then Inl TypeError
     else
      (case forEachField (Suc index) rest of
         Inl e \<Rightarrow> Inl e
       | Inr errs \<Rightarrow>
           Inr ((if \<not> truthy (getProp field ''name'')
                 then [Field_at_index_must_have_a_name index] else [])
              @ (if \<not> truthy (getProp field ''type'')
                 then [Field_must_have_a_type (getProp field ''name'')] else [])
              @ errs)))"

text \<open>
  \<^verbatim>\<open>schema.fields?.forEach(...)\<close>: the optional chain skips the call for null and undefined
  only. Any other value that is not an array has no \<^verbatim>\<open>forEach\<close> method, so the call
  throws, unless the value is an object that carries a function of that name.
\<close>

definition validateSchema :: "jsval \<Rightarrow> js_error + validation" where
  "validateSchema schema =
    (if nullish schema then Inl TypeError
     else
      (let errors1 =
             (if \<not> truthy (getProp schema ''modelName'') then [Model_must_have_a_name] else []);
           fields = getProp schema ''fields'';
           errors2 =
             (if \<not> isArray fields then [Model_must_have_fields_array] else [])
       in
        (case
           (if nullish fields then Inr []
            else
             (case fields of
                JArr fs \<Rightarrow> forEachField 0 fs
              | JObj kvs \<Rightarrow>
                  (case own kvs ''forEach'' of JFun f \<Rightarrow> Inl OpaqueCall | _ \<Rightarrow> Inl TypeError)
              | _ \<Rightarrow> Inl TypeError))
         of
           Inl e \<Rightarrow> Inl e
         | Inr errors3 \<Rightarrow>
             Inr \<lparr>valid = (length (errors1 @ errors2 @ errors3) = 0),
                  errors = errors1 @ errors2 @ errors3\<rparr>)))"

section \<open>The Mongoose parser: parseMongooseModel\<close>

text \<open>
  \<^verbatim>\<open>extractSchemaFromFile\<close> loads a module from disk; its result is a parameter here:
  \<^verbatim>\<open>None\<close> for null, else the list of \<^verbatim>\<open>{modelName, schema}\<close> with \<^verbatim>\<open>schema.obj\<close> and
  \<^verbatim>\<open>schema.paths\<close> given by their entries. The function returns null or the array of
  normalized models.
\<close>

definition parseMongooseModel ::
  "string \<Rightarrow> (jsval \<times> props \<times> props) list option \<Rightarrow> js_error + jsval" where
  "parseMongooseModel filePath extracted =
    (case extracted of
       None \<Rightarrow> Inr JNull
     | Some [] \<Rightarrow> Inr JNull
     | Some models \<Rightarrow>
        (case mapE (\<lambda>(modelName, obj, paths).
                 normalizeModel (JObj
                   [(''modelName'', modelName),
                    (''fields'', JArr (parseSchemaFields obj paths)),
                    (''source'', JStr ''mongoose''),
                    (''filePath'', JStr filePath)])) models
         of Inl e \<Rightarrow> Inl e | Inr ms \<Rightarrow> Inr (JArr ms)))"

section \<open>writers/file-writer.js\<close>

text \<open>
  The file system is a map from paths to file contents; directories are not modelled. The
  calls of \<^verbatim>\<open>fs-extra\<close> that can reject are named, and a fault plan says which of them reject
  during one call of \<^verbatim>\<open>writeFileSafe\<close>. A call that rejects leaves the file system as it
  found it. \<^verbatim>\<open>fs.pathExists\<close> never rejects. An operation returns what it threw or
  returned, together with the file system it left.
\<close>

type_synonym filesystem = "string \<Rightarrow> string option"

datatype fsop =
    EnsureDir
  | Access
  | CopyToBackup
  | WriteTemp
  | Rename
  | RemoveBackup
  | CopyFromBackup
  | RemoveRestored

type_synonym faults = "fsop \<Rightarrow> bool"

text \<open>
  The thrown error, in place of its message: the rejected call, or the error the source
  raises itself when the directory is not writable.
\<close>

datatype write_error = Rejected fsop | No_write_permission

definition ensureDirectory :: "faults \<Rightarrow> filesystem \<Rightarrow> (write_error + unit) \<times> filesystem" where
  "ensureDirectory F fs = (if F EnsureDir then (Inl (Rejected EnsureDir), fs) else (Inr (), fs))"

definition createBackup ::
  "faults \<Rightarrow> string \<Rightarrow> filesystem \<Rightarrow> (write_error + string option) \<times> filesystem" where
  "createBackup F filePath fs =
    (if fs filePath = None then (Inr None, fs)
     else
      (let backupPath = filePath @ ''.backup'' in
       if F CopyToBackup then (Inl (Rejected CopyToBackup), fs)
       else (Inr (Some backupPath), fs(backupPath := fs filePath))))"

definition restoreBackup ::
  "faults \<Rightarrow> string \<Rightarrow> string \<Rightarrow> filesystem \<Rightarrow> (write_error + unit) \<times> filesystem" where
  "restoreBackup F backupPath originalPath fs =
    (if fs backupPath \<noteq> None then
       (if F CopyFromBackup then (Inl (Rejected CopyFromBackup), fs)
        else
         (let fs1 = fs(originalPath := fs backupPath) in
          if F RemoveRestored then (Inl (Rejected RemoveRestored), fs1)
          else (Inr (), fs1(backupPath := None))))
     else (Inr (), fs))"

definition removeBackup ::
  "faults \<Rightarrow> string option \<Rightarrow> filesystem \<Rightarrow> (write_error + unit) \<times> filesystem" where
  "removeBackup F backupPath fs =
    (case backupPath of
       None \<Rightarrow> (Inr (), fs)
     | Some b \<Rightarrow>
        (if fs b \<noteq> None then
           (if F RemoveBackup then (Inl (Rejected RemoveBackup), fs)
            else (Inr (), fs(b := None)))
         else (Inr (), fs)))"

definition checkWritePermission :: "faults \<Rightarrow> string \<Rightarrow> bool" where
  "checkWritePermission F filePath = (if F Access then False else True)"

text \<open>
  The \<^verbatim>\<open>try\<close> block: what it threw or, at its end, the value of \<^verbatim>\<open>backupPath\<close>; when it
  throws, the value \<^verbatim>\<open>backupPath\<close> had then goes with the error, since the handler reads it.
\<close>

definition writeFileSafe_try ::
  "faults \<Rightarrow> string \<Rightarrow> string \<Rightarrow> bool \<Rightarrow> filesystem \<Rightarrow>
     ((write_error \<times> string option) + string option) \<times> filesystem" where
  "writeFileSafe_try F filePath content shouldBackup fs =
    (case ensureDirectory F fs of
       (Inl e, fs1) \<Rightarrow> (Inl (e, None), fs1)
     | (Inr u, fs1) \<Rightarrow>
        (if \<not> checkWritePermission F filePath then (Inl (No_write_permission, None), fs1)
         else
          (case (if shouldBackup then createBackup F filePath fs1 else (Inr None, fs1)) of
             (Inl e, fs2) \<Rightarrow> (Inl (e, None), fs2)
           | (Inr backupPath, fs2) \<Rightarrow>
              (let tempPath = filePath @ ''.tmp'' in
               if F WriteTemp then (Inl (Rejected WriteTemp, backupPath), fs2)
               else
                (let fs3 = fs2(tempPath \<mapsto> content) in
                 if F Rename then (Inl (Rejected Rename, backupPath), fs3)
                 else
                  (let fs4 = fs3(filePath := fs3 tempPath, tempPath := None) in
                   (case (if backupPath \<noteq> None then removeBackup F backupPath fs4
                          else (Inr (), fs4)) of
                      (Inl e, fs5) \<Rightarrow> (Inl (e, backupPath), fs5)
                    | (Inr u, fs5) \<Rightarrow> (Inr backupPath, fs5))))))))"

record write_result =
  success :: bool
  filePath :: string
  backupCreated :: "bool option"
  error :: "write_error option"

text \<open>
  The handler restores the backup when one was recorded; an error thrown by the restore
  is caught and logged, and the failure result is returned all the same.
\<close>

definition writeFileSafe ::
  "faults \<Rightarrow> string \<Rightarrow> string \<Rightarrow> bool \<Rightarrow> filesystem \<Rightarrow> write_result \<times> filesystem" where
  "writeFileSafe F path content shouldBackup fs =
    (case writeFileSafe_try F path content shouldBackup fs of
       (Inr backupPath, fs') \<Rightarrow>
         (\<lparr>success = True, filePath = path,
           backupCreated = Some (backupPath \<noteq> None), error = None\<rparr>, fs')
     | (Inl (err, backupPath), fs') \<Rightarrow>
         (\<lparr>success = False, filePath = path, backupCreated = None, error = Some err\<rparr>,
          (case backupPath of
             Some b \<Rightarrow> snd (restoreBackup F b path fs')
           | None \<Rightarrow> fs')))"

text \<open>
  The loop of \<^verbatim>\<open>writeMultipleFiles\<close>; \<^verbatim>\<open>E i\<close> is the fault plan in force during the call
  for the file at index \<^verbatim>\<open>i\<close>. The counts are JavaScript numbers, so the subtraction is
  the one of the integers.
\<close>

fun writeEach ::
  "(nat \<Rightarrow> faults) \<Rightarrow> nat \<Rightarrow> bool \<Rightarrow> (string \<times> string) list \<Rightarrow> filesystem \<Rightarrow>
     write_result list \<times> filesystem" where
  "writeEach E i shouldBackup [] fs = ([], fs)"
| "writeEach E i shouldBackup ((path, content) # rest) fs =
    (case writeFileSafe (E i) path content shouldBackup fs of
       (result, fs1) \<Rightarrow>
         (case writeEach E (Suc i) shouldBackup rest fs1 of
            (results, fs2) \<Rightarrow> (result # results, fs2)))"

record write_summary =
  all_success :: bool
  total :: int
  successful :: int
  failed :: int
  results :: "write_result list"

definition writeMultipleFiles ::
  "(nat \<Rightarrow> faults) \<Rightarrow> (string \<times> string) list \<Rightarrow> bool \<Rightarrow> filesystem \<Rightarrow>
     write_summary \<times> filesystem" where
  "writeMultipleFiles E files shouldBackup fs =
    (case writeEach E 0 shouldBackup files fs of
       (rs, fs') \<Rightarrow>
         (let allSuccess = list_all success rs;
              successCount = int (length (filter success rs))
          in (\<lparr>all_success = allSuccess,
                total = int (length files),
                successful = successCount,
                failed = int (length files) - successCount,
                results = rs\<rparr>, fs')))"

section \<open>watchers/file-watcher.js\<close>

text \<open>
  The watcher's variables: the timer set by \<^verbatim>\<open>debounce\<close> (when it is due and the argument
  it will pass), the flag \<^verbatim>\<open>isRegenerating\<close>, and two observations: the calls of
  \<^verbatim>\<open>generateTypes\<close> that have begun (time and changed path) and how many of them have
  not settled yet. Time is counted in milliseconds.
\<close>

record watcher =
  timeoutId :: "(nat \<times> string) option"
  isRegenerating :: bool
  started :: "(nat \<times> string) list"
  inFlight :: nat

definition initial :: watcher where
  "initial = \<lparr>timeoutId = None, isRegenerating = False, started = [], inFlight = 0\<rparr>"

text \<open>\<^verbatim>\<open>debounceDelay = config.watchDebounce || 300\<close>, unless the options give one.\<close>

definition debounceDelay :: "nat option \<Rightarrow> nat option \<Rightarrow> nat" where
  "debounceDelay optionsDelay watchDebounce =
    (case optionsDelay of
       Some d \<Rightarrow> d
     | None \<Rightarrow> (case watchDebounce of Some d \<Rightarrow> (if d \<noteq> 0 then d else 300) | None \<Rightarrow> 300))"

text \<open>
  The function returned by \<^verbatim>\<open>debounce\<close>, called at time \<^verbatim>\<open>t\<close>: it clears the timer and sets
  a new one.
\<close>

definition debounce :: "nat \<Rightarrow> nat \<Rightarrow> string \<Rightarrow> watcher \<Rightarrow> watcher" where
  "debounce delay t changedPath w = w\<lparr>timeoutId := Some (t + delay, changedPath)\<rparr>"

text \<open>
  The debounced body of \<^verbatim>\<open>regenerate\<close> up to its \<^verbatim>\<open>await\<close>: it returns at once while a
  run is in flight, else it raises the flag and calls \<^verbatim>\<open>generateTypes\<close>.
\<close>

definition regenerate :: "nat \<Rightarrow> string \<Rightarrow> watcher \<Rightarrow> watcher" where
  "regenerate t changedPath w =
    (if isRegenerating w then w
     else w\<lparr>isRegenerating := True,
            started := started w @ [(t, changedPath)],
            inFlight := Suc (inFlight w)\<rparr>)"

text \<open>The rest of the body: \<^verbatim>\<open>generateTypes\<close> settles and the \<^verbatim>\<open>finally\<close> block runs.\<close>

definition settle :: "watcher \<Rightarrow> watcher" where
  "settle w =
    (if inFlight w = 0 then w
     else w\<lparr>isRegenerating := False, inFlight := inFlight w - 1\<rparr>)"

text \<open>The timer expires: it is gone and its callback runs.\<close>

definition expire :: "watcher \<Rightarrow> watcher" where
  "expire w =
    (case timeoutId w of
       None \<Rightarrow> w
     | Some (due, changedPath) \<Rightarrow> regenerate due changedPath (w\<lparr>timeoutId := None\<rparr>))"

text \<open>
  What the event loop delivers: a watcher event (\<^verbatim>\<open>change\<close>, \<^verbatim>\<open>add\<close> or \<^verbatim>\<open>unlink\<close>) for a
  path, or the settling of the run in flight, each at a time. A timer that is due by then
  expires first.
\<close>

datatype event = Change nat string | Settled nat

definition advance :: "nat \<Rightarrow> watcher \<Rightarrow> watcher" where
  "advance t w =
    (case timeoutId w of
       None \<Rightarrow> w
     | Some (due, changedPath) \<Rightarrow> (if due \<le> t then expire w else w))"

fun deliver :: "nat \<Rightarrow> watcher \<Rightarrow> event \<Rightarrow> watcher" where
  "deliver delay w (Change t changedPath) = debounce delay t changedPath (advance t w)"
| "deliver delay w (Settled t) = settle (advance t w)"

definition run :: "nat \<Rightarrow> event list \<Rightarrow> watcher \<Rightarrow> watcher" where
  "run delay evs w = foldl (deliver delay) w evs"

text \<open>
  A burst, seen from the timer: \<^verbatim>\<open>within delay due evs\<close> says that every event of \<^verbatim>\<open>evs\<close>
  arrives before the timer pending at that moment is due, where each watcher event sets
  the timer anew. \<^verbatim>\<open>lastChange e evs\<close> is the last watcher event of \<^verbatim>\<open>evs\<close>, or \<^verbatim>\<open>e\<close> when
  there is none.
\<close>

fun within :: "nat \<Rightarrow> nat \<Rightarrow> event list \<Rightarrow> bool" where
  "within delay due [] = True"
| "within delay due (Change t changedPath # evs) = (t < due \<and> within delay (t + delay) evs)"
| "within delay due (Settled t # evs) = (t < due \<and> within delay due evs)"

fun lastChange :: "nat \<times> string \<Rightarrow> event list \<Rightarrow> nat \<times> string" where
  "lastChange e [] = e"
| "lastChange e (Change t changedPath # evs) = lastChange (t, changedPath) evs"
| "lastChange e (Settled t # evs) = lastChange e evs"

section \<open>Facts about property reads\<close>

lemmas table_defs =
  typeMapLookup_def MONGOOSE_TYPE_MAP_def Object_prototype_def own_def js_or_def STANDARD_TYPES

lemma own_Cons: "own ((k, v) # kvs) k' = (if k' = k then v else own kvs k')"
  by (simp add: own_def)

lemma own_Nil: "own [] k = JUndefined"
  by (simp add: own_def)

lemma own_update: "own (AList.update k v kvs) k' = (if k' = k then v else own kvs k')"
  by (simp add: own_def update_conv')

lemma own_delete: "own (AList.delete k kvs) k' = (if k' = k then JUndefined else own kvs k')"
  by (simp add: own_def delete_conv')

section \<open>extractFieldType\<close>

lemma extractFieldType_object: "\<exists>kvs. extractFieldType fieldDef = JObj kvs"
  by (induction fieldDef rule: extractFieldType.induct) (auto simp: Let_def)

lemma extractFieldType_empty_array:
  "extractFieldType (JArr []) =
     JObj [(''type'', JStr ''array''), (''isArray'', JBool True), (''arrayOf'', JStr ''any'')]"
  by (simp add: STANDARD_TYPES)

text \<open>
  A marker that is neither a key of the table nor a member every object inherits resolves
  to \<^verbatim>\<open>any\<close>, as a function and as a string.
\<close>

lemma extractFieldType_unknown_marker:
  assumes "typeName \<notin> fst ` set MONGOOSE_TYPE_MAP"
    and "typeName \<notin> fst ` set Object_prototype"
  shows "extractFieldType (JFun typeName) =
           JObj [(''type'', JStr ''any''), (''isReference'', JBool False)]
       \<and> extractFieldType (JStr typeName) =
           JObj [(''type'', JStr ''any''), (''isReference'', JBool False)]"
  using assms
  by (simp add: typeMapLookup_def own_def js_or_def ANY_def map_of_eq_None_iff [THEN iffD2])

text \<open>
  A value of none of the recognized shapes (null, undefined, a boolean, a number, an
  object with neither a truthy \<^verbatim>\<open>type\<close> nor a truthy \<^verbatim>\<open>enum\<close>) falls through.
\<close>

lemma extractFieldType_fallthrough:
  assumes "\<not> isArray fieldDef"
    and "\<not> (truthy (getProp fieldDef ''type'') \<or> truthy (getProp fieldDef ''enum''))
         \<or> (\<exists>n. fieldDef = JFun n)"
    and "\<forall>n. fieldDef \<noteq> JFun n" and "\<forall>s. fieldDef \<noteq> JStr s"
  shows "extractFieldType fieldDef = JObj [(''type'', JStr ''any''), (''isReference'', JBool False)]"
  using assms by (cases fieldDef) (auto simp: ANY_def)

text \<open>
  C10. The claim: \<^verbatim>\<open>extractFieldType\<close> never throws, an empty array gives an array of
  \<^verbatim>\<open>any\<close>, an unknown bare type marker gives the type \<^verbatim>\<open>any\<close>, and everything else
  falls through to \<^verbatim>\<open>any\<close>. The function is total and the first and last parts hold
  (\<open>extractFieldType_empty_array\<close>, \<open>extractFieldType_fallthrough\<close>), but the fallback
  \<^verbatim>\<open>MONGOOSE_TYPE_MAP[name] || 'any'\<close> misses the names every object inherits: for the
  string \<^verbatim>\<open>'constructor'\<close>, not a Mongoose type, the read finds the built-in function
  \<^verbatim>\<open>Object\<close>, which is truthy, and the field's type is that function instead of
  \<^verbatim>\<open>'any'\<close>.
\<close>

theorem extractFieldType_inherited_marker:
  "extractFieldType (JStr ''constructor'') =
     JObj [(''type'', JFun ''Object''), (''isReference'', JBool False)]"
  by (simp add: table_defs)

text \<open>The array branch copies the type and the reference of its element and nothing else.\<close>

lemma array_wrapper_drops_enum:
  "getProp (extractFieldType (JArr elems)) ''isEnum'' = JUndefined \<and>
   getProp (extractFieldType (JArr elems)) ''enumValues'' = JUndefined"
  by (cases elems) (simp_all add: own_def Let_def)

text \<open>
  The other spelling of an array of enum values, \<^verbatim>\<open>{ type: [String], enum: ['a','b'] }\<close>,
  does reach the flag \<^verbatim>\<open>isEnumArray\<close> that \<^verbatim>\<open>parseSchemaFields\<close> computes under the
  comment "Handle enum arrays specially".
\<close>

lemma enum_on_array_type:
  "parseSchemaFields
     [(''roles'', JObj [(''type'', JArr [JFun ''String'']),
                        (''enum'', JArr [JStr ''a'', JStr ''b''])])] []
   = [JObj [(''name'', JStr ''roles''), (''type'', JStr ''array''),
            (''required'', JBool False), (''isArray'', JBool True),
            (''arrayOf'', JStr ''string''), (''isReference'', JBool False),
            (''referenceTo'', JNull), (''isEnum'', JBool True),
            (''isEnumArray'', JBool True),
            (''enumValues'', JArr [JStr ''a'', JStr ''b'']),
            (''defaultValue'', JNull), (''isUnique'', JBool False),
            (''nested'', JNull)]]"
  by (simp add: table_defs js_and_def startsWith_def)

text \<open>
  C4. The claim: for an array wrapper around an enum-valued element, extraction keeps the
  element's enum marking, so that the field renders as an array of the union of the
  literals. At \<^verbatim>\<open>roles: [{ type: String, enum: ['a','b'] }]\<close> the array branch of
  \<^verbatim>\<open>extractFieldType\<close> returns the element's type and reference only, and the parsed field
  has \<^verbatim>\<open>isEnum\<close> false, \<^verbatim>\<open>isEnumArray\<close> undefined and \<^verbatim>\<open>enumValues\<close> null: what is
  left is a bare array of strings.
\<close>

theorem array_wrapper_loses_enum:
  "extractFieldType
     (JArr [JObj [(''type'', JFun ''String''), (''enum'', JArr [JStr ''a'', JStr ''b''])]])
   = JObj [(''type'', JStr ''array''), (''isArray'', JBool True),
           (''arrayOf'', JStr ''string''), (''isReference'', JBool False),
           (''referenceTo'', JUndefined)]
   \<and> parseSchemaFields
       [(''roles'', JArr [JObj [(''type'', JFun ''String''),
                                (''enum'', JArr [JStr ''a'', JStr ''b''])]])] []
   = [JObj [(''name'', JStr ''roles''), (''type'', JStr ''array''),
            (''required'', JBool False), (''isArray'', JBool True),
            (''arrayOf'', JStr ''string''), (''isReference'', JBool False),
            (''referenceTo'', JNull), (''isEnum'', JBool False),
            (''isEnumArray'', JUndefined), (''enumValues'', JNull),
            (''defaultValue'', JNull), (''isUnique'', JBool False),
            (''nested'', JNull)]]"
  by (simp add: table_defs js_and_def startsWith_def)

text \<open>
  C5, as amended. The claim: with \<^verbatim>\<open>type\<close>, \<^verbatim>\<open>enum\<close> and \<^verbatim>\<open>ref\<close> all present, both
  overlays are applied. The source returns from the \<^verbatim>\<open>enum\<close> branch before it looks at
  \<^verbatim>\<open>ref\<close>. So: when \<^verbatim>\<open>type\<close> and \<^verbatim>\<open>enum\<close> are truthy the result is marked as an enum
  with the literal values, the key \<^verbatim>\<open>ref\<close> has no effect at all, and the type and the
  reference marking are the ones the \<^verbatim>\<open>type\<close> resolves to by itself.
\<close>

theorem enum_overlay_excludes_ref:
  assumes "truthy (own kvs ''type'')" and "truthy (own kvs ''enum'')"
  shows "getProp (extractFieldType (JObj kvs)) ''isEnum'' = JBool True
       \<and> getProp (extractFieldType (JObj kvs)) ''enumValues'' = own kvs ''enum''
       \<and> extractFieldType (JObj kvs) = extractFieldType (JObj (AList.delete ''ref'' kvs))
       \<and> getProp (extractFieldType (JObj kvs)) ''type'' =
           getProp (extractFieldType (own kvs ''type'')) ''type''
       \<and> getProp (extractFieldType (JObj kvs)) ''isReference'' =
           getProp (extractFieldType (own kvs ''type'')) ''isReference''
       \<and> getProp (extractFieldType (JObj kvs)) ''referenceTo'' =
           getProp (extractFieldType (own kvs ''type'')) ''referenceTo''"
proof -
  obtain ti where ti: "extractFieldType (own kvs ''type'') = JObj ti"
    using extractFieldType_object by blast
  have "extractFieldType (JObj kvs) = extractFieldType (JObj (AList.delete ''ref'' kvs))"
    using assms by (simp add: own_delete)
  moreover have "getProp (extractFieldType (JObj kvs)) ''isEnum'' = JBool True"
    using assms ti by (simp add: own_update)
  moreover have "getProp (extractFieldType (JObj kvs)) ''enumValues'' = own kvs ''enum''"
    using assms ti by (simp add: own_update)
  moreover have "getProp (extractFieldType (JObj kvs)) ''type'' =
      getProp (extractFieldType (own kvs ''type'')) ''type''"
    using assms ti by (simp add: own_update)
  moreover have "getProp (extractFieldType (JObj kvs)) ''isReference'' =
      getProp (extractFieldType (own kvs ''type'')) ''isReference''"
    using assms ti by (simp add: own_update)
  moreover have "getProp (extractFieldType (JObj kvs)) ''referenceTo'' =
      getProp (extractFieldType (own kvs ''type'')) ''referenceTo''"
    using assms ti by (simp add: own_update)
  ultimately show ?thesis by simp
qed

text \<open>
  The amended statement at \<^verbatim>\<open>{ type: ObjectId, enum: ['a','b'], ref: 'User' }\<close>: an enum of
  strings that is no reference.
\<close>

theorem enum_overlay_excludes_ref_witness:
  "truthy (own [(''type'', JFun ''ObjectId''), (''enum'', JArr [JStr ''a'', JStr ''b'']),
                (''ref'', JStr ''User'')] ''type'')
   \<and> truthy (own [(''type'', JFun ''ObjectId''), (''enum'', JArr [JStr ''a'', JStr ''b'']),
                  (''ref'', JStr ''User'')] ''enum'')
   \<and> getProp (extractFieldType
        (JObj [(''type'', JFun ''ObjectId''), (''enum'', JArr [JStr ''a'', JStr ''b'']),
               (''ref'', JStr ''User'')])) ''isEnum'' = JBool True
   \<and> getProp (extractFieldType
        (JObj [(''type'', JFun ''ObjectId''), (''enum'', JArr [JStr ''a'', JStr ''b'']),
               (''ref'', JStr ''User'')])) ''isReference'' = JBool False"
  using enum_overlay_excludes_ref
    [of "[(''type'', JFun ''ObjectId''), (''enum'', JArr [JStr ''a'', JStr ''b'']),
          (''ref'', JStr ''User'')]"]
  by (simp add: table_defs)

text \<open>
  The claim as it is written fails at the same input: the field is not marked as a
  reference to \<^verbatim>\<open>User\<close>.
\<close>

theorem both_overlays_counterexample:
  "\<not> (getProp (extractFieldType
          (JObj [(''type'', JFun ''ObjectId''), (''enum'', JArr [JStr ''a'', JStr ''b'']),
                 (''ref'', JStr ''User'')])) ''isEnum'' = JBool True
      \<and> getProp (extractFieldType
          (JObj [(''type'', JFun ''ObjectId''), (''enum'', JArr [JStr ''a'', JStr ''b'']),
                 (''ref'', JStr ''User'')])) ''enumValues'' = JArr [JStr ''a'', JStr ''b'']
      \<and> getProp (extractFieldType
          (JObj [(''type'', JFun ''ObjectId''), (''enum'', JArr [JStr ''a'', JStr ''b'']),
                 (''ref'', JStr ''User'')])) ''isReference'' = JBool True
      \<and> getProp (extractFieldType
          (JObj [(''type'', JFun ''ObjectId''), (''enum'', JArr [JStr ''a'', JStr ''b'']),
                 (''ref'', JStr ''User'')])) ''referenceTo'' = JStr ''User'')"
  by (simp add: table_defs)

section \<open>From the schema to the normalized fields\<close>

text \<open>Reading the keys of interest off the field literal of \<^verbatim>\<open>parseSchemaFields\<close>.\<close>

lemma parsed_required:
  "own [(''name'', a), (''type'', b), (''required'', c), (''isArray'', e), (''arrayOf'', f),
        (''isReference'', g), (''referenceTo'', h), (''isEnum'', i), (''isEnumArray'', j),
        (''enumValues'', k), (''defaultValue'', l), (''isUnique'', m), (''nested'', q)] ''required'' = c"
  by (simp add: own_Cons)

lemma parsed_defaultValue:
  "own [(''name'', a), (''type'', b), (''required'', c), (''isArray'', e), (''arrayOf'', f),
        (''isReference'', g), (''referenceTo'', h), (''isEnum'', i), (''isEnumArray'', j),
        (''enumValues'', k), (''defaultValue'', l), (''isUnique'', m), (''nested'', q)] ''defaultValue'' = l"
  by (simp add: own_Cons)

lemma parsed_nested:
  "own [(''name'', a), (''type'', b), (''required'', c), (''isArray'', e), (''arrayOf'', f),
        (''isReference'', g), (''referenceTo'', h), (''isEnum'', i), (''isEnumArray'', j),
        (''enumValues'', k), (''defaultValue'', l), (''isUnique'', m), (''nested'', q)] ''nested'' = q"
  by (simp add: own_Cons)

lemma parsed_field:
  assumes "\<not> startsWith n ''_''"
  shows "\<exists>kvs. parseSchemaFields ((n, d) # obj) paths = JObj kvs # parseSchemaFields obj paths \<and>
     own kvs ''required'' =
       JBool ((truthy d \<and> typeof_object d \<and> getProp d ''required'' = JBool True) \<or>
              (truthy (own paths n) \<and> truthy (getProp (own paths n) ''isRequired''))) \<and>
     own kvs ''defaultValue'' =
       (if truthy d \<and> typeof_object d \<and> hasProp ''default'' d then getProp d ''default'' else JNull) \<and>
     own kvs ''nested'' =
       (case d of
          JObj kvs \<Rightarrow>
            if \<not> truthy (own kvs ''type'') \<and> \<not> truthy (own kvs ''enum'')
            then JArr (parseSchemaFields kvs []) else JNull
        | _ \<Rightarrow> JNull)"
  using assms
  apply (simp only: parseSchemaFields.simps Let_def if_False list.inject simp_thms ex_simps jsval.inject
          parsed_required parsed_defaultValue parsed_nested)
  apply auto
  done

text \<open>
  What the parser itself emits, at any level: one field per entry whose name does not
  begin with an underscore, in order, each an object.
\<close>

lemma parsed_fields:
  "map (\<lambda>f. getProp f ''required'') (parseSchemaFields obj paths) =
     map (\<lambda>(n, d). JBool ((truthy d \<and> typeof_object d \<and> getProp d ''required'' = JBool True) \<or>
                         (truthy (own paths n) \<and> truthy (getProp (own paths n) ''isRequired''))))
       (filter (\<lambda>(n, d). \<not> startsWith n ''_'') obj) \<and>
   map (\<lambda>f. getProp f ''defaultValue'') (parseSchemaFields obj paths) =
     map (\<lambda>(n, d). if truthy d \<and> typeof_object d \<and> hasProp ''default'' d
                     then getProp d ''default'' else JNull)
       (filter (\<lambda>(n, d). \<not> startsWith n ''_'') obj) \<and>
   map (\<lambda>f. getProp f ''nested'') (parseSchemaFields obj paths) =
     map (\<lambda>(n, d). case d of
                       JObj kvs \<Rightarrow>
                         if \<not> truthy (own kvs ''type'') \<and> \<not> truthy (own kvs ''enum'')
                         then JArr (parseSchemaFields kvs []) else JNull
                     | _ \<Rightarrow> JNull)
       (filter (\<lambda>(n, d). \<not> startsWith n ''_'') obj) \<and>
   (\<forall>f \<in> set (parseSchemaFields obj paths). \<exists>kvs. f = JObj kvs)"
proof (induction obj)
  case Nil
  show ?case by simp
next
  case (Cons a obj)
  obtain n d where a: "a = (n, d)" by (cases a)
  show ?case
  proof (cases "startsWith n ''_''")
    case True
    with a Cons show ?thesis by simp
  next
    case False
    from parsed_field [OF False, of d obj paths] obtain kvs where
      p: "parseSchemaFields ((n, d) # obj) paths = JObj kvs # parseSchemaFields obj paths"
      and r: "own kvs ''required'' =
       JBool ((truthy d \<and> typeof_object d \<and> getProp d ''required'' = JBool True) \<or>
              (truthy (own paths n) \<and> truthy (getProp (own paths n) ''isRequired'')))"
      and dv: "own kvs ''defaultValue'' =
       (if truthy d \<and> typeof_object d \<and> hasProp ''default'' d then getProp d ''default'' else JNull)"
      and ne: "own kvs ''nested'' =
       (case d of
          JObj kvs \<Rightarrow>
            if \<not> truthy (own kvs ''type'') \<and> \<not> truthy (own kvs ''enum'')
            then JArr (parseSchemaFields kvs []) else JNull
        | _ \<Rightarrow> JNull)"
      by blast
    have v: "filter (\<lambda>(n, d). \<not> startsWith n ''_'') (a # obj) =
               (n, d) # filter (\<lambda>(n, d). \<not> startsWith n ''_'') obj"
      using a False by simp
    show ?thesis
      unfolding v a p using Cons r dv ne False by simp
  qed
qed

text \<open>What \<^verbatim>\<open>normalizeField\<close> makes of the three keys, and that it returns for objects.\<close>

lemma normalizeField_object:
  "normalizeField (JObj kvs) = Inr r \<Longrightarrow>
     getProp r ''required'' = JBool (own kvs ''required'' \<noteq> JBool False) \<and>
     getProp r ''defaultValue'' = js_or (own kvs ''defaultValue'') JNull \<and>
     getProp r ''nested'' = js_or (own kvs ''nested'') JNull"
  by (auto simp: normalizeField_def nullish_def own_Cons)

lemma normalizeField_total: "\<exists>r. normalizeField (JObj kvs) = Inr r"
  by (simp add: normalizeField_def nullish_def)

lemma normalize_objects:
  "\<forall>f \<in> set fs. \<exists>kvs. f = JObj kvs \<Longrightarrow>
   \<exists>ns. mapE normalizeField fs = Inr ns \<and>
     map (\<lambda>f. getProp f ''required'') ns =
       map (\<lambda>f. JBool (getProp f ''required'' \<noteq> JBool False)) fs \<and>
     map (\<lambda>f. getProp f ''defaultValue'') ns =
       map (\<lambda>f. js_or (getProp f ''defaultValue'') JNull) fs \<and>
     map (\<lambda>f. getProp f ''nested'') ns =
       map (\<lambda>f. js_or (getProp f ''nested'') JNull) fs"
proof (induction fs)
  case Nil
  show ?case by simp
next
  case (Cons f fs)
  then obtain kvs where f: "f = JObj kvs" by auto
  obtain x where x: "normalizeField (JObj kvs) = Inr x"
    using normalizeField_total by blast
  from Cons obtain ns where ns: "mapE normalizeField fs = Inr ns"
    and r: "map (\<lambda>f. getProp f ''required'') ns =
       map (\<lambda>f. JBool (getProp f ''required'' \<noteq> JBool False)) fs"
    and d: "map (\<lambda>f. getProp f ''defaultValue'') ns =
       map (\<lambda>f. js_or (getProp f ''defaultValue'') JNull) fs"
    and n: "map (\<lambda>f. getProp f ''nested'') ns =
       map (\<lambda>f. js_or (getProp f ''nested'') JNull) fs"
    by auto
  have "mapE normalizeField (f # fs) = Inr (x # ns)"
    using f x ns by simp
  then show ?case
    using normalizeField_object [OF x] f r d n by simp
qed

lemma normalize_parsed:
  "\<exists>ns. mapE normalizeField (parseSchemaFields obj paths) = Inr ns \<and>
     map (\<lambda>f. getProp f ''required'') ns =
       map (\<lambda>(n, d). JBool ((truthy d \<and> typeof_object d \<and> getProp d ''required'' = JBool True) \<or>
                         (truthy (own paths n) \<and> truthy (getProp (own paths n) ''isRequired''))))
         (filter (\<lambda>(n, d). \<not> startsWith n ''_'') obj) \<and>
     map (\<lambda>f. getProp f ''defaultValue'') ns =
       map (\<lambda>(n, d). if truthy d \<and> typeof_object d \<and> hasProp ''default'' d \<and>
                        truthy (getProp d ''default'')
                     then getProp d ''default'' else JNull)
         (filter (\<lambda>(n, d). \<not> startsWith n ''_'') obj) \<and>
     map (\<lambda>f. getProp f ''nested'') ns =
       map (\<lambda>(n, d). case d of
                       JObj kvs \<Rightarrow>
                         if \<not> truthy (own kvs ''type'') \<and> \<not> truthy (own kvs ''enum'')
                         then JArr (parseSchemaFields kvs []) else JNull
                     | _ \<Rightarrow> JNull)
         (filter (\<lambda>(n, d). \<not> startsWith n ''_'') obj)"
proof -
  let ?fs = "parseSchemaFields obj paths"
  from parsed_fields [of obj paths]
  have pr: "map (\<lambda>f. getProp f ''required'') ?fs =
     map (\<lambda>(n, d). JBool ((truthy d \<and> typeof_object d \<and> getProp d ''required'' = JBool True) \<or>
                         (truthy (own paths n) \<and> truthy (getProp (own paths n) ''isRequired''))))
       (filter (\<lambda>(n, d). \<not> startsWith n ''_'') obj)"
    and pd: "map (\<lambda>f. getProp f ''defaultValue'') ?fs =
     map (\<lambda>(n, d). if truthy d \<and> typeof_object d \<and> hasProp ''default'' d
                     then getProp d ''default'' else JNull)
       (filter (\<lambda>(n, d). \<not> startsWith n ''_'') obj)"
    and pn: "map (\<lambda>f. getProp f ''nested'') ?fs =
     map (\<lambda>(n, d). case d of
                       JObj kvs \<Rightarrow>
                         if \<not> truthy (own kvs ''type'') \<and> \<not> truthy (own kvs ''enum'')
                         then JArr (parseSchemaFields kvs []) else JNull
                     | _ \<Rightarrow> JNull)
       (filter (\<lambda>(n, d). \<not> startsWith n ''_'') obj)"
    and po: "\<forall>f \<in> set ?fs. \<exists>kvs. f = JObj kvs"
    by blast+
  from normalize_objects [OF po] obtain ns where ns: "mapE normalizeField ?fs = Inr ns"
    and r: "map (\<lambda>f. getProp f ''required'') ns =
       map (\<lambda>f. JBool (getProp f ''required'' \<noteq> JBool False)) ?fs"
    and d: "map (\<lambda>f. getProp f ''defaultValue'') ns =
       map (\<lambda>f. js_or (getProp f ''defaultValue'') JNull) ?fs"
    and n: "map (\<lambda>f. getProp f ''nested'') ns =
       map (\<lambda>f. js_or (getProp f ''nested'') JNull) ?fs"
    by blast
  have "map (\<lambda>f. JBool (getProp f ''required'' \<noteq> JBool False)) ?fs =
        map (\<lambda>v. JBool (v \<noteq> JBool False)) (map (\<lambda>f. getProp f ''required'') ?fs)"
    by (simp add: comp_def)
  also have "\<dots> = map (\<lambda>(n, d). JBool ((truthy d \<and> typeof_object d \<and> getProp d ''required'' = JBool True) \<or>
                         (truthy (own paths n) \<and> truthy (getProp (own paths n) ''isRequired''))))
       (filter (\<lambda>(n, d). \<not> startsWith n ''_'') obj)"
    unfolding pr by (auto simp: comp_def split_def)
  finally have r': "map (\<lambda>f. getProp f ''required'') ns =
     map (\<lambda>(n, d). JBool ((truthy d \<and> typeof_object d \<and> getProp d ''required'' = JBool True) \<or>
                         (truthy (own paths n) \<and> truthy (getProp (own paths n) ''isRequired''))))
       (filter (\<lambda>(n, d). \<not> startsWith n ''_'') obj)"
    using r by simp
  have "map (\<lambda>f. js_or (getProp f ''defaultValue'') JNull) ?fs =
        map (\<lambda>v. js_or v JNull) (map (\<lambda>f. getProp f ''defaultValue'') ?fs)"
    by (simp add: comp_def)
  also have "\<dots> = map (\<lambda>(n, d). if truthy d \<and> typeof_object d \<and> hasProp ''default'' d \<and>
                        truthy (getProp d ''default'')
                     then getProp d ''default'' else JNull)
       (filter (\<lambda>(n, d). \<not> startsWith n ''_'') obj)"
    unfolding pd by (auto simp: comp_def split_def js_or_def)
  finally have d': "map (\<lambda>f. getProp f ''defaultValue'') ns =
     map (\<lambda>(n, d). if truthy d \<and> typeof_object d \<and> hasProp ''default'' d \<and>
                        truthy (getProp d ''default'')
                     then getProp d ''default'' else JNull)
       (filter (\<lambda>(n, d). \<not> startsWith n ''_'') obj)"
    using d by simp
  have "map (\<lambda>f. js_or (getProp f ''nested'') JNull) ?fs =
        map (\<lambda>v. js_or v JNull) (map (\<lambda>f. getProp f ''nested'') ?fs)"
    by (simp add: comp_def)
  also have "\<dots> = map (\<lambda>(n, d). case d of
                       JObj kvs \<Rightarrow>
                         if \<not> truthy (own kvs ''type'') \<and> \<not> truthy (own kvs ''enum'')
                         then JArr (parseSchemaFields kvs []) else JNull
                     | _ \<Rightarrow> JNull)
       (filter (\<lambda>(n, d). \<not> startsWith n ''_'') obj)"
    unfolding pn by (auto simp: comp_def split_def js_or_def split: jsval.splits)
  finally have n': "map (\<lambda>f. getProp f ''nested'') ns =
     map (\<lambda>(n, d). case d of
                       JObj kvs \<Rightarrow>
                         if \<not> truthy (own kvs ''type'') \<and> \<not> truthy (own kvs ''enum'')
                         then JArr (parseSchemaFields kvs []) else JNull
                     | _ \<Rightarrow> JNull)
       (filter (\<lambda>(n, d). \<not> startsWith n ''_'') obj)"
    using n by simp
  from ns r' d' n' show ?thesis by blast
qed

lemma parseMongooseModel_one:
  "mapE normalizeField (parseSchemaFields obj paths) = Inr ns \<Longrightarrow>
   parseMongooseModel file (Some [(modelName, obj, paths)]) =
     Inr (JArr [JObj [(''modelName'', modelName),
              (''tableName'', js_or JUndefined modelName),
              (''fields'', JArr ns),
              (''description'', js_or JUndefined JNull),
              (''source'', js_or (JStr ''mongoose'') (JStr ''unknown'')),
              (''filePath'', js_or (JStr file) JNull)]])"
  by (simp add: parseMongooseModel_def normalizeModel_def nullish_def own_Cons own_Nil js_or_def)

text \<open>
  C1, as amended. The claim: a field definition without an explicit required marker comes
  out of extraction and normalization with \<^verbatim>\<open>required = true\<close>. The parser starts from
  \<^verbatim>\<open>required = false\<close> and always hands the normalizer a boolean, so the normalizer's
  default never applies. What holds, level by level: a model is always produced; its
  fields are the schema's entries without those whose name begins with an underscore, in
  order, and such a field is required exactly when its definition is an object whose
  \<^verbatim>\<open>required\<close> is \<^verbatim>\<open>true\<close> or the schema's path of that name has a truthy
  \<^verbatim>\<open>isRequired\<close>; the \<^verbatim>\<open>nested\<close> of a field whose definition is a plain object with
  neither \<^verbatim>\<open>type\<close> nor \<^verbatim>\<open>enum\<close> is what the parser emits for that object's entries,
  parsed without any path and not normalized (any other field has \<^verbatim>\<open>nested\<close> null); and
  what the parser emits without paths, at whatever depth, again leaves out the underscore
  names and marks a field required exactly when its definition is an object whose
  \<^verbatim>\<open>required\<close> is \<^verbatim>\<open>true\<close>. So a definition that omits the marker is never required
  unless it is a top-level one whose path says so.
\<close>

theorem required_follows_explicit_marker:
  "(\<exists>m. parseMongooseModel file (Some [(modelName, obj, paths)]) = Inr (JArr [m]) \<and>
      map (\<lambda>f. getProp f ''required'') (elements (getProp m ''fields'')) =
        map (\<lambda>(n, d). JBool ((truthy d \<and> typeof_object d \<and> getProp d ''required'' = JBool True) \<or>
                         (truthy (own paths n) \<and> truthy (getProp (own paths n) ''isRequired''))))
          (filter (\<lambda>(n, d). \<not> startsWith n ''_'') obj) \<and>
      map (\<lambda>f. getProp f ''nested'') (elements (getProp m ''fields'')) =
        map (\<lambda>(n, d). case d of
                       JObj kvs \<Rightarrow>
                         if \<not> truthy (own kvs ''type'') \<and> \<not> truthy (own kvs ''enum'')
                         then JArr (parseSchemaFields kvs []) else JNull
                     | _ \<Rightarrow> JNull)
          (filter (\<lambda>(n, d). \<not> startsWith n ''_'') obj))
   \<and> map (\<lambda>f. getProp f ''required'') (parseSchemaFields nobj []) =
        map (\<lambda>(n, d). JBool (truthy d \<and> typeof_object d \<and> getProp d ''required'' = JBool True))
          (filter (\<lambda>(n, d). \<not> startsWith n ''_'') nobj)
   \<and> map (\<lambda>f. getProp f ''nested'') (parseSchemaFields nobj []) =
        map (\<lambda>(n, d). case d of
                       JObj kvs \<Rightarrow>
                         if \<not> truthy (own kvs ''type'') \<and> \<not> truthy (own kvs ''enum'')
                         then JArr (parseSchemaFields kvs []) else JNull
                     | _ \<Rightarrow> JNull)
          (filter (\<lambda>(n, d). \<not> startsWith n ''_'') nobj)"
proof -
  from normalize_parsed [of obj paths] obtain ns where
    ns: "mapE normalizeField (parseSchemaFields obj paths) = Inr ns"
    and req: "map (\<lambda>f. getProp f ''required'') ns =
       map (\<lambda>(n, d). JBool ((truthy d \<and> typeof_object d \<and> getProp d ''required'' = JBool True) \<or>
                         (truthy (own paths n) \<and> truthy (getProp (own paths n) ''isRequired''))))
         (filter (\<lambda>(n, d). \<not> startsWith n ''_'') obj)"
    and nes: "map (\<lambda>f. getProp f ''nested'') ns =
       map (\<lambda>(n, d). case d of
                       JObj kvs \<Rightarrow>
                         if \<not> truthy (own kvs ''type'') \<and> \<not> truthy (own kvs ''enum'')
                         then JArr (parseSchemaFields kvs []) else JNull
                     | _ \<Rightarrow> JNull)
         (filter (\<lambda>(n, d). \<not> startsWith n ''_'') obj)"
    by blast
  from parseMongooseModel_one [OF ns] req nes
  have top: "\<exists>m. parseMongooseModel file (Some [(modelName, obj, paths)]) = Inr (JArr [m]) \<and>
      map (\<lambda>f. getProp f ''required'') (elements (getProp m ''fields'')) =
        map (\<lambda>(n, d). JBool ((truthy d \<and> typeof_object d \<and> getProp d ''required'' = JBool True) \<or>
                         (truthy (own paths n) \<and> truthy (getProp (own paths n) ''isRequired''))))
          (filter (\<lambda>(n, d). \<not> startsWith n ''_'') obj) \<and>
      map (\<lambda>f. getProp f ''nested'') (elements (getProp m ''fields'')) =
        map (\<lambda>(n, d). case d of
                       JObj kvs \<Rightarrow>
                         if \<not> truthy (own kvs ''type'') \<and> \<not> truthy (own kvs ''enum'')
                         then JArr (parseSchemaFields kvs []) else JNull
                     | _ \<Rightarrow> JNull)
          (filter (\<lambda>(n, d). \<not> startsWith n ''_'') obj)"
    by (simp add: own_Cons)
  from parsed_fields [of nobj "[]"]
  have "map (\<lambda>f. getProp f ''required'') (parseSchemaFields nobj []) =
        map (\<lambda>(n, d). JBool (truthy d \<and> typeof_object d \<and> getProp d ''required'' = JBool True))
          (filter (\<lambda>(n, d). \<not> startsWith n ''_'') nobj)"
    and "map (\<lambda>f. getProp f ''nested'') (parseSchemaFields nobj []) =
        map (\<lambda>(n, d). case d of
                       JObj kvs \<Rightarrow>
                         if \<not> truthy (own kvs ''type'') \<and> \<not> truthy (own kvs ''enum'')
                         then JArr (parseSchemaFields kvs []) else JNull
                     | _ \<Rightarrow> JNull)
          (filter (\<lambda>(n, d). \<not> startsWith n ''_'') nobj)"
    by (simp_all add: own_Nil)
  with top show ?thesis by blast
qed

text \<open>
  The schema \<^verbatim>\<open>{ name: { type: String, required: true }, age: Number, _v: Number,
  email: { type: String }, address: { street: { type: String, required: [true, 'needed'] },
  zip: { type: String, required: true }, city: String } }\<close>, where Mongoose's paths say
  that \<^verbatim>\<open>email\<close> and \<^verbatim>\<open>address.street\<close> are required: the path counts for \<^verbatim>\<open>email\<close> and
  not for the nested \<^verbatim>\<open>street\<close>.
\<close>

theorem required_follows_explicit_marker_witness:
  "(\<exists>m. parseMongooseModel ''models/User.js''
         (Some [(JStr ''User'',
                 [(''name'', JObj [(''type'', JFun ''String''), (''required'', JBool True)]),
                  (''age'', JFun ''Number''),
                  (''_v'', JFun ''Number''),
                  (''email'', JObj [(''type'', JFun ''String'')]),
                  (''address'',
                   JObj [(''street'', JObj [(''type'', JFun ''String''),
                                            (''required'', JArr [JBool True, JStr ''needed''])]),
                         (''zip'', JObj [(''type'', JFun ''String''), (''required'', JBool True)]),
                         (''city'', JFun ''String'')])],
                 [(''email'', JObj [(''isRequired'', JBool True)]),
                  (''address.street'', JObj [(''isRequired'', JBool True)])])]) = Inr (JArr [m]) \<and>
      map (\<lambda>f. getProp f ''required'') (elements (getProp m ''fields'')) =
        [JBool True, JBool False, JBool True, JBool False] \<and>
      map (\<lambda>f. getProp f ''nested'') (elements (getProp m ''fields'')) =
        [JNull, JNull, JNull,
         JArr (parseSchemaFields
          [(''street'', JObj [(''type'', JFun ''String''),
                              (''required'', JArr [JBool True, JStr ''needed''])]),
           (''zip'', JObj [(''type'', JFun ''String''), (''required'', JBool True)]),
           (''city'', JFun ''String'')] [])])
   \<and> map (\<lambda>f. getProp f ''required'')
         (parseSchemaFields
          [(''street'', JObj [(''type'', JFun ''String''),
                              (''required'', JArr [JBool True, JStr ''needed''])]),
           (''zip'', JObj [(''type'', JFun ''String''), (''required'', JBool True)]),
           (''city'', JFun ''String'')] []) =
       [JBool False, JBool True, JBool False]"
  using required_follows_explicit_marker
    [of "''models/User.js''" "JStr ''User''"
        "[(''name'', JObj [(''type'', JFun ''String''), (''required'', JBool True)]),
          (''age'', JFun ''Number''),
          (''_v'', JFun ''Number''),
          (''email'', JObj [(''type'', JFun ''String'')]),
          (''address'',
           JObj [(''street'', JObj [(''type'', JFun ''String''),
                                    (''required'', JArr [JBool True, JStr ''needed''])]),
                 (''zip'', JObj [(''type'', JFun ''String''), (''required'', JBool True)]),
                 (''city'', JFun ''String'')])]"
        "[(''email'', JObj [(''isRequired'', JBool True)]),
          (''address.street'', JObj [(''isRequired'', JBool True)])]"
        "[(''street'', JObj [(''type'', JFun ''String''),
                              (''required'', JArr [JBool True, JStr ''needed''])]),
           (''zip'', JObj [(''type'', JFun ''String''), (''required'', JBool True)]),
           (''city'', JFun ''String'')]"]
  by (simp add: startsWith_def own_Cons own_Nil)

text \<open>
  The claim as it is written fails at \<^verbatim>\<open>{ age: Number }\<close>: the one normalized field has
  \<^verbatim>\<open>required\<close> false.
\<close>

theorem omitted_marker_counterexample:
  "parseMongooseModel ''models/User.js'' (Some [(JStr ''User'', [(''age'', JFun ''Number'')], [])])
   = Inr (JArr
       [JObj
         [(''modelName'', JStr ''User''), (''tableName'', JStr ''User''),
          (''fields'',
           JArr
            [JObj
              [(''name'', JStr ''age''), (''type'', JStr ''number''),
               (''required'', JBool False), (''isPrimary'', JBool False),
               (''isArray'', JBool False), (''arrayOf'', JNull),
               (''isEnum'', JBool False), (''enumValues'', JNull),
               (''isReference'', JBool False), (''referenceTo'', JNull),
               (''defaultValue'', JNull), (''description'', JNull),
               (''nested'', JNull)]]),
          (''description'', JNull), (''source'', JStr ''mongoose''),
          (''filePath'', JStr ''models/User.js'')]])"
  by (simp add: parseMongooseModel_def normalizeModel_def normalizeField_def nullish_def
        table_defs js_and_def startsWith_def)

text \<open>
  C9, as amended. The claim: \<^verbatim>\<open>normalizeField\<close> turns every falsy default into null, so
  that a schema default of \<^verbatim>\<open>false\<close> or \<^verbatim>\<open>0\<close> cannot be told in the IR from no default, and
  only truthy defaults survive. That holds of \<^verbatim>\<open>normalizeField\<close> and of the fields it is
  applied to, the top-level ones. The fields of a nested object never reach
  \<^verbatim>\<open>normalizeField\<close>. So: \<^verbatim>\<open>normalizeField\<close> keeps a truthy \<^verbatim>\<open>defaultValue\<close> and replaces
  every other one by null; a top-level field of the model has its schema default when
  that is truthy and null otherwise; the \<^verbatim>\<open>nested\<close> of a field is what the parser emits
  for a nested object, not normalized; and in what the parser emits without paths, at
  whatever depth, a field has its declared default as it is, falsy or not, and null only
  when it declares none.
\<close>

theorem falsy_default_normalizes_to_null:
  "(\<exists>r. normalizeField (JObj kvs) = Inr r \<and>
        getProp r ''defaultValue'' =
          (if truthy (own kvs ''defaultValue'') then own kvs ''defaultValue'' else JNull))
   \<and> (\<exists>m. parseMongooseModel file (Some [(modelName, obj, paths)]) = Inr (JArr [m]) \<and>
        map (\<lambda>f. getProp f ''defaultValue'') (elements (getProp m ''fields'')) =
          map (\<lambda>(n, d). if truthy d \<and> typeof_object d \<and> hasProp ''default'' d \<and>
                        truthy (getProp d ''default'')
                     then getProp d ''default'' else JNull)
            (filter (\<lambda>(n, d). \<not> startsWith n ''_'') obj) \<and>
        map (\<lambda>f. getProp f ''nested'') (elements (getProp m ''fields'')) =
          map (\<lambda>(n, d). case d of
                       JObj kvs \<Rightarrow>
                         if \<not> truthy (own kvs ''type'') \<and> \<not> truthy (own kvs ''enum'')
                         then JArr (parseSchemaFields kvs []) else JNull
                     | _ \<Rightarrow> JNull)
            (filter (\<lambda>(n, d). \<not> startsWith n ''_'') obj))
   \<and> map (\<lambda>f. getProp f ''defaultValue'') (parseSchemaFields nobj []) =
        map (\<lambda>(n, d). if truthy d \<and> typeof_object d \<and> hasProp ''default'' d
                     then getProp d ''default'' else JNull)
          (filter (\<lambda>(n, d). \<not> startsWith n ''_'') nobj)
   \<and> map (\<lambda>f. getProp f ''nested'') (parseSchemaFields nobj []) =
        map (\<lambda>(n, d). case d of
                       JObj kvs \<Rightarrow>
                         if \<not> truthy (own kvs ''type'') \<and> \<not> truthy (own kvs ''enum'')
                         then JArr (parseSchemaFields kvs []) else JNull
                     | _ \<Rightarrow> JNull)
          (filter (\<lambda>(n, d). \<not> startsWith n ''_'') nobj)"
proof -
  obtain r where r: "normalizeField (JObj kvs) = Inr r"
    using normalizeField_total by blast
  from normalizeField_object [OF r]
  have first: "\<exists>r. normalizeField (JObj kvs) = Inr r \<and>
        getProp r ''defaultValue'' =
          (if truthy (own kvs ''defaultValue'') then own kvs ''defaultValue'' else JNull)"
    using r by (simp add: js_or_def)
  from normalize_parsed [of obj paths] obtain ns where
    ns: "mapE normalizeField (parseSchemaFields obj paths) = Inr ns"
    and dfl: "map (\<lambda>f. getProp f ''defaultValue'') ns =
          map (\<lambda>(n, d). if truthy d \<and> typeof_object d \<and> hasProp ''default'' d \<and>
                        truthy (getProp d ''default'')
                     then getProp d ''default'' else JNull)
            (filter (\<lambda>(n, d). \<not> startsWith n ''_'') obj)"
    and nes: "map (\<lambda>f. getProp f ''nested'') ns =
          map (\<lambda>(n, d). case d of
                       JObj kvs \<Rightarrow>
                         if \<not> truthy (own kvs ''type'') \<and> \<not> truthy (own kvs ''enum'')
                         then JArr (parseSchemaFields kvs []) else JNull
                     | _ \<Rightarrow> JNull)
            (filter (\<lambda>(n, d). \<not> startsWith n ''_'') obj)"
    by blast
  from parseMongooseModel_one [OF ns] dfl nes
  have top: "\<exists>m. parseMongooseModel file (Some [(modelName, obj, paths)]) = Inr (JArr [m]) \<and>
        map (\<lambda>f. getProp f ''defaultValue'') (elements (getProp m ''fields'')) =
          map (\<lambda>(n, d). if truthy d \<and> typeof_object d \<and> hasProp ''default'' d \<and>
                        truthy (getProp d ''default'')
                     then getProp d ''default'' else JNull)
            (filter (\<lambda>(n, d). \<not> startsWith n ''_'') obj) \<and>
        map (\<lambda>f. getProp f ''nested'') (elements (getProp m ''fields'')) =
          map (\<lambda>(n, d). case d of
                       JObj kvs \<Rightarrow>
                         if \<not> truthy (own kvs ''type'') \<and> \<not> truthy (own kvs ''enum'')
                         then JArr (parseSchemaFields kvs []) else JNull
                     | _ \<Rightarrow> JNull)
            (filter (\<lambda>(n, d). \<not> startsWith n ''_'') obj)"
    by (simp add: own_Cons)
  from parsed_fields [of nobj "[]"]
  have "map (\<lambda>f. getProp f ''defaultValue'') (parseSchemaFields nobj []) =
        map (\<lambda>(n, d). if truthy d \<and> typeof_object d \<and> hasProp ''default'' d
                     then getProp d ''default'' else JNull)
          (filter (\<lambda>(n, d). \<not> startsWith n ''_'') nobj)"
    and "map (\<lambda>f. getProp f ''nested'') (parseSchemaFields nobj []) =
        map (\<lambda>(n, d). case d of
                       JObj kvs \<Rightarrow>
                         if \<not> truthy (own kvs ''type'') \<and> \<not> truthy (own kvs ''enum'')
                         then JArr (parseSchemaFields kvs []) else JNull
                     | _ \<Rightarrow> JNull)
          (filter (\<lambda>(n, d). \<not> startsWith n ''_'') nobj)"
    by simp_all
  with first top show ?thesis by blast
qed

text \<open>
  At the top level the defaults \<^verbatim>\<open>false\<close>, \<^verbatim>\<open>0\<close> and \<^verbatim>\<open>''\<close> come out as null, like the
  field without one, and \<^verbatim>\<open>'user'\<close> survives; inside \<^verbatim>\<open>ratings\<close> the default \<^verbatim>\<open>0\<close> of
  \<^verbatim>\<open>average\<close> stays, next to the null of \<^verbatim>\<open>count\<close>.
\<close>

theorem falsy_default_normalizes_to_null_witness:
  "(\<exists>r. normalizeField (JObj [(''name'', JStr ''active''), (''defaultValue'', JBool False)]) = Inr r \<and>
        getProp r ''defaultValue'' = JNull)
   \<and> (\<exists>m. parseMongooseModel ''models/Product.js''
         (Some [(JStr ''Product'',
                 [(''active'', JObj [(''type'', JFun ''Boolean''), (''default'', JBool False)]),
                  (''visits'', JObj [(''type'', JFun ''Number''), (''default'', JNum 0)]),
                  (''label'', JObj [(''type'', JFun ''String''), (''default'', JStr [])]),
                  (''role'', JObj [(''type'', JFun ''String''), (''default'', JStr ''user'')]),
                  (''email'', JObj [(''type'', JFun ''String'')]),
                  (''ratings'',
                   JObj [(''average'', JObj [(''type'', JFun ''Number''), (''default'', JNum 0)]),
                         (''count'', JObj [(''type'', JFun ''Number'')])])],
                 [])]) = Inr (JArr [m]) \<and>
        map (\<lambda>f. getProp f ''defaultValue'') (elements (getProp m ''fields'')) =
          [JNull, JNull, JNull, JStr ''user'', JNull, JNull] \<and>
        map (\<lambda>f. getProp f ''nested'') (elements (getProp m ''fields'')) =
          [JNull, JNull, JNull, JNull, JNull,
           JArr (parseSchemaFields
            [(''average'', JObj [(''type'', JFun ''Number''), (''default'', JNum 0)]),
           (''count'', JObj [(''type'', JFun ''Number'')])] [])])
   \<and> map (\<lambda>f. getProp f ''defaultValue'')
         (parseSchemaFields
          [(''average'', JObj [(''type'', JFun ''Number''), (''default'', JNum 0)]),
           (''count'', JObj [(''type'', JFun ''Number'')])] []) =
       [JNum 0, JNull]"
  using falsy_default_normalizes_to_null
    [of "[(''name'', JStr ''active''), (''defaultValue'', JBool False)]"
        "''models/Product.js''" "JStr ''Product''"
        "[(''active'', JObj [(''type'', JFun ''Boolean''), (''default'', JBool False)]),
          (''visits'', JObj [(''type'', JFun ''Number''), (''default'', JNum 0)]),
          (''label'', JObj [(''type'', JFun ''String''), (''default'', JStr [])]),
          (''role'', JObj [(''type'', JFun ''String''), (''default'', JStr ''user'')]),
          (''email'', JObj [(''type'', JFun ''String'')]),
          (''ratings'',
           JObj [(''average'', JObj [(''type'', JFun ''Number''), (''default'', JNum 0)]),
                 (''count'', JObj [(''type'', JFun ''Number'')])])]"
        "[]"
        "[(''average'', JObj [(''type'', JFun ''Number''), (''default'', JNum 0)]),
           (''count'', JObj [(''type'', JFun ''Number'')])]"]
  by (simp add: startsWith_def own_Cons own_Nil)

text \<open>
  The claim as it is written fails at \<^verbatim>\<open>{ ratings: { average: { type: Number, default: 0 },
  count: { type: Number } } }\<close>: in the model the nested field \<^verbatim>\<open>average\<close> has the
  \<^verbatim>\<open>defaultValue\<close> 0, which is falsy, has survived, and differs from the null of \<^verbatim>\<open>count\<close>,
  the field with no default.
\<close>

theorem nested_falsy_default_counterexample:
  "parseMongooseModel ''models/Product.js''
     (Some [(JStr ''Product'',
             [(''ratings'',
               JObj [(''average'', JObj [(''type'', JFun ''Number''), (''default'', JNum 0)]),
                     (''count'', JObj [(''type'', JFun ''Number'')])])],
             [])])
   = Inr (JArr
       [JObj
         [(''modelName'', JStr ''Product''), (''tableName'', JStr ''Product''),
          (''fields'',
           JArr
            [JObj
              [(''name'', JStr ''ratings''), (''type'', JStr ''object''),
               (''required'', JBool False), (''isPrimary'', JBool False),
               (''isArray'', JBool False), (''arrayOf'', JNull),
               (''isEnum'', JBool False), (''enumValues'', JNull),
               (''isReference'', JBool False), (''referenceTo'', JNull),
               (''defaultValue'', JNull), (''description'', JNull),
               (''nested'',
                JArr
                 [JObj
                   [(''name'', JStr ''average''), (''type'', JStr ''number''),
                    (''required'', JBool False), (''isArray'', JBool False),
                    (''arrayOf'', JNull), (''isReference'', JBool False),
                    (''referenceTo'', JNull), (''isEnum'', JBool False),
                    (''isEnumArray'', JUndefined), (''enumValues'', JNull),
                    (''defaultValue'', JNum 0), (''isUnique'', JBool False),
                    (''nested'', JNull)],
                  JObj
                   [(''name'', JStr ''count''), (''type'', JStr ''number''),
                    (''required'', JBool False), (''isArray'', JBool False),
                    (''arrayOf'', JNull), (''isReference'', JBool False),
                    (''referenceTo'', JNull), (''isEnum'', JBool False),
                    (''isEnumArray'', JUndefined), (''enumValues'', JNull),
                    (''defaultValue'', JNull), (''isUnique'', JBool False),
                    (''nested'', JNull)]])]]),
          (''description'', JNull), (''source'', JStr ''mongoose''),
          (''filePath'', JStr ''models/Product.js'')]])"
  by (simp add: parseMongooseModel_def normalizeModel_def normalizeField_def nullish_def
        table_defs js_and_def startsWith_def)

section \<open>validateSchema\<close>

lemma forEachField_empty:
  "forEachField i fs = Inr es \<Longrightarrow>
   (es = [] \<longleftrightarrow> (\<forall>f \<in> set fs. truthy (getProp f ''name'') \<and> truthy (getProp f ''type'')))"
  by (induction fs arbitrary: i es) (auto split: if_splits sum.splits)

text \<open>Whenever \<^verbatim>\<open>validateSchema\<close> returns, \<^verbatim>\<open>valid\<close> is what the claim says.\<close>

lemma validateSchema_valid_iff:
  "validateSchema schema = Inr v \<Longrightarrow>
   valid v \<longleftrightarrow>
     (truthy (getProp schema ''modelName'') \<and> isArray (getProp schema ''fields'') \<and>
      (\<forall>f \<in> set (elements (getProp schema ''fields'')).
          truthy (getProp f ''name'') \<and> truthy (getProp f ''type'')))"
  by (auto simp: validateSchema_def Let_def nullish_def dest: forEachField_empty
        split: if_splits sum.splits jsval.splits)

text \<open>It returns for every schema whose \<^verbatim>\<open>fields\<close> is an array of objects, or absent.\<close>

lemma forEachField_objects:
  "\<forall>f \<in> set fs. \<not> nullish f \<Longrightarrow> \<exists>es. forEachField i fs = Inr es"
proof (induction fs arbitrary: i)
  case Nil
  show ?case by simp
next
  case (Cons f fs)
  then obtain es where "forEachField (Suc i) fs = Inr es"
    by (meson list.set_intros(2))
  with Cons.prems show ?case by simp
qed

lemma validateSchema_returns:
  assumes "\<not> nullish schema"
    and "nullish (getProp schema ''fields'') \<or>
         (\<exists>fs. getProp schema ''fields'' = JArr fs \<and> (\<forall>f \<in> set fs. \<not> nullish f))"
  shows "\<exists>v. validateSchema schema = Inr v"
  using assms forEachField_objects [of _ 0]
  by (fastforce simp: validateSchema_def Let_def nullish_def)

text \<open>An array that holds null throws as well, at \<^verbatim>\<open>field.name\<close>.\<close>

lemma validateSchema_throws_on_null_field:
  "validateSchema (JObj [(''modelName'', JStr ''User''), (''fields'', JArr [JNull])]) = Inl TypeError"
  by (simp add: validateSchema_def nullish_def own_def)

text \<open>
  C6. The claim: for every schema object \<^verbatim>\<open>validateSchema\<close> returns \<^verbatim>\<open>{valid, errors}\<close>
  without throwing, and \<^verbatim>\<open>valid\<close> holds exactly when the model has a name, \<^verbatim>\<open>fields\<close> is an
  array and every field has a name and a type. At \<^verbatim>\<open>{ modelName: 'User', fields: {} }\<close> the
  source records "Model must have fields array" and then calls \<^verbatim>\<open>schema.fields.forEach\<close>,
  which the optional chain skips for null and undefined only: the call throws a TypeError
  and no result is returned.
\<close>

theorem validateSchema_throws_on_wrong_shaped_fields:
  "validateSchema (JObj [(''modelName'', JStr ''User''), (''fields'', JObj [])]) = Inl TypeError"
  by (simp add: validateSchema_def nullish_def own_def)

section \<open>writeFileSafe\<close>

lemmas writer_defs =
  writeFileSafe_def writeFileSafe_try_def ensureDirectory_def createBackup_def
  removeBackup_def restoreBackup_def checkWritePermission_def

text \<open>
  When the \<^verbatim>\<open>try\<close> block throws with a backup recorded, the destination existed, the
  backup still holds its prior content, and the rejected call is one of the three that
  follow the backup.
\<close>

lemma try_throw_after_backup:
  assumes "fst (writeFileSafe_try F path content shouldBackup fs) = Inl (e, Some b)"
  shows "b = path @ ''.backup'' \<and> fs path \<noteq> None \<and>
         snd (writeFileSafe_try F path content shouldBackup fs) b = fs path \<and>
         e \<in> {Rejected WriteTemp, Rejected Rename, Rejected RemoveBackup}"
  using assms
  by (auto simp: writeFileSafe_try_def ensureDirectory_def createBackup_def
        removeBackup_def checkWritePermission_def Let_def split: if_splits)

lemma restoreBackup_restores:
  assumes "fs b \<noteq> None" and "\<not> F CopyFromBackup" and "b \<noteq> path"
  shows "snd (restoreBackup F b path fs) path = fs b"
  using assms by (simp add: restoreBackup_def Let_def)

lemma writeFileSafe_failure_shape:
  "\<not> success (fst (writeFileSafe F path content shouldBackup fs)) \<Longrightarrow>
   \<exists>e. fst (writeFileSafe F path content shouldBackup fs) =
     \<lparr>success = False, filePath = path, backupCreated = None, error = Some e\<rparr>"
  by (auto simp: writeFileSafe_def split: prod.splits sum.splits)



text \<open>
  C2, as amended. The claim: whenever \<^verbatim>\<open>writeFileSafe\<close> fails at a step after the backup
  was created, the destination holds afterwards what it held before, and the failure is
  a result object, not an exception. The handler restores by copying the backup back, and
  it catches and logs an error of that restore. So: if the \<^verbatim>\<open>try\<close> block throws after the
  backup was recorded, the call returns the failure result with the error of the step
  that failed; and if the copy from the backup is not rejected, the destination's content
  after the call is its content before the call, for every prior and every new content.
\<close>

theorem rollback_when_restore_copies:
  assumes "fst (writeFileSafe_try F path content shouldBackup fs) = Inl (e, Some b)"
  shows "fst (writeFileSafe F path content shouldBackup fs) =
           \<lparr>success = False, filePath = path, backupCreated = None, error = Some e\<rparr>
       \<and> (\<not> F CopyFromBackup \<longrightarrow>
            snd (writeFileSafe F path content shouldBackup fs) path = fs path)"
proof -
  obtain r fs1 where t: "writeFileSafe_try F path content shouldBackup fs = (r, fs1)"
    by (cases "writeFileSafe_try F path content shouldBackup fs")
  with assms have r: "r = Inl (e, Some b)" by simp
  from try_throw_after_backup [OF assms] t
  have b: "b = path @ ''.backup''" and ex: "fs path \<noteq> None" and keep: "fs1 b = fs path"
    by auto
  have "b \<noteq> path" using b by simp
  with restoreBackup_restores [of fs1 b F path] ex keep
  have "\<not> F CopyFromBackup \<longrightarrow> snd (restoreBackup F b path fs1) path = fs path"
    by simp
  then show ?thesis using t r by (simp add: writeFileSafe_def)
qed

text \<open>The rename is rejected: the old content is back and the failure is reported.\<close>

theorem rollback_when_restore_copies_witness:
  "fst (writeFileSafe_try (\<lambda>op. op = Rename) ''types/index.ts'' ''new'' True
          [''types/index.ts'' \<mapsto> ''old''])
     = Inl (Rejected Rename, Some ''types/index.ts.backup'')
   \<and> \<not> (CopyFromBackup = Rename)
   \<and> snd (writeFileSafe (\<lambda>op. op = Rename) ''types/index.ts'' ''new'' True
            [''types/index.ts'' \<mapsto> ''old'']) ''types/index.ts'' = Some ''old''
   \<and> fst (writeFileSafe (\<lambda>op. op = Rename) ''types/index.ts'' ''new'' True
            [''types/index.ts'' \<mapsto> ''old''])
     = \<lparr>success = False, filePath = ''types/index.ts'', backupCreated = None,
        error = Some (Rejected Rename)\<rparr>"
  using rollback_when_restore_copies
    [of "\<lambda>op. op = Rename" "''types/index.ts''" "''new''" True
        "[''types/index.ts'' \<mapsto> ''old'']" "Rejected Rename" "''types/index.ts.backup''"]
  by (simp add: writer_defs Let_def)

text \<open>
  The claim as it is written fails when the removal of the backup is rejected after the
  rename and the copy from the backup is rejected too: the call fails after the backup was
  created, reports the failure, and the destination keeps the new content.
\<close>

theorem rollback_counterexample:
  "fst (writeFileSafe_try (\<lambda>op. op = RemoveBackup \<or> op = CopyFromBackup)
          ''types/index.ts'' ''new'' True [''types/index.ts'' \<mapsto> ''old''])
     = Inl (Rejected RemoveBackup, Some ''types/index.ts.backup'')
   \<and> fst (writeFileSafe (\<lambda>op. op = RemoveBackup \<or> op = CopyFromBackup)
            ''types/index.ts'' ''new'' True [''types/index.ts'' \<mapsto> ''old''])
     = \<lparr>success = False, filePath = ''types/index.ts'', backupCreated = None,
        error = Some (Rejected RemoveBackup)\<rparr>
   \<and> snd (writeFileSafe (\<lambda>op. op = RemoveBackup \<or> op = CopyFromBackup)
            ''types/index.ts'' ''new'' True [''types/index.ts'' \<mapsto> ''old''])
         ''types/index.ts'' = Some ''new''"
  by (simp add: writer_defs Let_def)

section \<open>writeMultipleFiles\<close>

lemma writeEach_Cons:
  "writeEach E k sb ((p, c) # rest) fs =
     (fst (writeFileSafe (E k) p c sb fs)
        # fst (writeEach E (Suc k) sb rest (snd (writeFileSafe (E k) p c sb fs))),
      snd (writeEach E (Suc k) sb rest (snd (writeFileSafe (E k) p c sb fs))))"
  by (simp split: prod.splits)

lemma writeEach_length: "length (fst (writeEach E k sb files fs)) = length files"
proof (induction files arbitrary: k fs)
  case Nil
  show ?case by simp
next
  case (Cons f files)
  obtain p c where "f = (p, c)" by (cases f)
  with Cons show ?case by (simp only: writeEach_Cons fst_conv list.size)
qed

lemma writeEach_nth:
  "i < length files \<Longrightarrow>
   fst (writeEach E k sb files fs) ! i =
     fst (writeFileSafe (E (k + i)) (fst (files ! i)) (snd (files ! i)) sb
            (snd (writeEach E k sb (take i files) fs)))"
proof (induction files arbitrary: i k fs)
  case Nil
  then show ?case by simp
next
  case (Cons f files)
  obtain p c where f: "f = (p, c)" by (cases f)
  show ?case
  proof (cases i)
    case 0
    then show ?thesis using f by (simp add: writeEach_Cons del: writeEach.simps(2))
  next
    case (Suc j)
    with Cons.prems have "j < length files" by simp
    from Cons.IH [OF this, of "Suc k" "snd (writeFileSafe (E k) p c sb fs)"]
    show ?thesis using f Suc by (simp add: writeEach_Cons del: writeEach.simps(2))
  qed
qed

lemma all_success_count:
  "list_all P rs \<longleftrightarrow> length (filter P rs) = length rs"
proof (induction rs)
  case Nil
  show ?case by simp
next
  case (Cons r rs)
  have "length (filter P rs) \<le> length rs" by simp
  then have "length (filter P rs) \<noteq> Suc (length rs)" by arith
  with Cons show ?case by auto
qed


lemma writeEach_take_Suc:
  "i < length files \<Longrightarrow>
   snd (writeEach E k sb (take (Suc i) files) fs) =
     snd (writeFileSafe (E (k + i)) (fst (files ! i)) (snd (files ! i)) sb
            (snd (writeEach E k sb (take i files) fs)))"
proof (induction files arbitrary: i k fs)
  case Nil
  then show ?case by simp
next
  case (Cons f files)
  obtain p c where f: "f = (p, c)" by (cases f)
  show ?case
  proof (cases i)
    case 0
    then show ?thesis using f by (simp add: writeEach_Cons del: writeEach.simps(2))
  next
    case (Suc j)
    with Cons.prems have "j < length files" by simp
    from Cons.IH [OF this, of "Suc k" "snd (writeFileSafe (E k) p c sb fs)"]
    show ?thesis using f Suc by (simp add: writeEach_Cons del: writeEach.simps(2))
  qed
qed

lemma writeMultipleFiles_results:
  "results (fst (writeMultipleFiles E files sb fs)) = fst (writeEach E 0 sb files fs)"
  by (simp add: writeMultipleFiles_def Let_def split: prod.splits)

lemma writeMultipleFiles_filesystem:
  "snd (writeMultipleFiles E files sb fs) = snd (writeEach E 0 sb files fs)"
  by (simp add: writeMultipleFiles_def Let_def split: prod.splits)

text \<open>A call that reports success has left the new content at its path.\<close>

lemma writeFileSafe_success_writes:
  "success (fst (writeFileSafe F path content shouldBackup fs)) \<Longrightarrow>
   snd (writeFileSafe F path content shouldBackup fs) path = Some content"
  by (auto simp: writer_defs Let_def split: if_splits)

text \<open>
  C8. For a list of N files the summary has \<^verbatim>\<open>total\<close> = N; \<^verbatim>\<open>successful\<close> is the number
  of results that report success and \<^verbatim>\<open>failed\<close> the number of those that do not, so that
  \<^verbatim>\<open>successful + failed\<close> = N; \<^verbatim>\<open>success\<close> holds exactly when every result reports
  success, which is exactly when \<^verbatim>\<open>failed\<close> is 0. There is one result per file, and each
  file is written by itself: with no file the file system is untouched, and for every
  index i the result at i is that of \<^verbatim>\<open>writeFileSafe\<close> for the file at i, run on the file
  system the first i files left, whatever their results were; the file system after the
  first i + 1 files is the one that call left; and when that call reports success, the
  file's path holds its content then. Taken at the last index, this is the file system
  the whole call leaves.
\<close>

theorem writeMultipleFiles_summary:
  "total (fst (writeMultipleFiles E files sb fs)) = int (length files)
   \<and> successful (fst (writeMultipleFiles E files sb fs)) =
       int (length (filter success (results (fst (writeMultipleFiles E files sb fs)))))
   \<and> failed (fst (writeMultipleFiles E files sb fs)) =
       int (length (filter (\<lambda>r. \<not> success r)
                     (results (fst (writeMultipleFiles E files sb fs)))))
   \<and> successful (fst (writeMultipleFiles E files sb fs))
       + failed (fst (writeMultipleFiles E files sb fs)) = int (length files)
   \<and> (all_success (fst (writeMultipleFiles E files sb fs))
        \<longleftrightarrow> (\<forall>r \<in> set (results (fst (writeMultipleFiles E files sb fs))). success r))
   \<and> (all_success (fst (writeMultipleFiles E files sb fs))
        \<longleftrightarrow> failed (fst (writeMultipleFiles E files sb fs)) = 0)
   \<and> length (results (fst (writeMultipleFiles E files sb fs))) = length files
   \<and> snd (writeMultipleFiles E [] sb fs) = fs
   \<and> (\<forall>i < length files.
        results (fst (writeMultipleFiles E files sb fs)) ! i =
          fst (writeFileSafe (E i) (fst (files ! i)) (snd (files ! i)) sb
                 (snd (writeMultipleFiles E (take i files) sb fs)))
        \<and> snd (writeMultipleFiles E (take (Suc i) files) sb fs) =
          snd (writeFileSafe (E i) (fst (files ! i)) (snd (files ! i)) sb
                 (snd (writeMultipleFiles E (take i files) sb fs)))
        \<and> (success (results (fst (writeMultipleFiles E files sb fs)) ! i) \<longrightarrow>
             snd (writeMultipleFiles E (take (Suc i) files) sb fs) (fst (files ! i)) =
               Some (snd (files ! i))))"
proof -
  let ?rs = "results (fst (writeMultipleFiles E files sb fs))"
  have rs: "?rs = fst (writeEach E 0 sb files fs)"
    by (rule writeMultipleFiles_results)
  have len: "length ?rs = length files"
    using writeEach_length [of E 0 sb files fs] rs by simp
  have compl: "length (filter success ?rs) + length (filter (\<lambda>r. \<not> success r) ?rs) = length files"
    using sum_length_filter_compl [of success ?rs] len by simp
  have tot: "total (fst (writeMultipleFiles E files sb fs)) = int (length files)"
    by (simp add: writeMultipleFiles_def Let_def split: prod.splits)
  have suc: "successful (fst (writeMultipleFiles E files sb fs)) = int (length (filter success ?rs))"
    by (simp add: writeMultipleFiles_def Let_def split: prod.splits)
  have fai0: "failed (fst (writeMultipleFiles E files sb fs)) =
      int (length files) - int (length (filter success ?rs))"
    by (simp add: writeMultipleFiles_def Let_def split: prod.splits)
  have fai: "failed (fst (writeMultipleFiles E files sb fs)) =
      int (length (filter (\<lambda>r. \<not> success r) ?rs))"
    using fai0 compl by linarith
  have sum: "successful (fst (writeMultipleFiles E files sb fs))
       + failed (fst (writeMultipleFiles E files sb fs)) = int (length files)"
    using suc fai0 by simp
  have all0: "all_success (fst (writeMultipleFiles E files sb fs)) \<longleftrightarrow> list_all success ?rs"
    by (simp add: writeMultipleFiles_def Let_def split: prod.splits)
  have all1: "all_success (fst (writeMultipleFiles E files sb fs)) \<longleftrightarrow> (\<forall>r \<in> set ?rs. success r)"
    using all0 by (simp add: list_all_iff)
  have all2: "all_success (fst (writeMultipleFiles E files sb fs))
      \<longleftrightarrow> failed (fst (writeMultipleFiles E files sb fs)) = 0"
    using all0 all_success_count [of success ?rs] len fai0 by auto
  have emp: "snd (writeMultipleFiles E [] sb fs) = fs"
    by (simp add: writeMultipleFiles_filesystem)
  have step: "\<forall>i < length files.
        ?rs ! i =
          fst (writeFileSafe (E i) (fst (files ! i)) (snd (files ! i)) sb
                 (snd (writeMultipleFiles E (take i files) sb fs)))
        \<and> snd (writeMultipleFiles E (take (Suc i) files) sb fs) =
          snd (writeFileSafe (E i) (fst (files ! i)) (snd (files ! i)) sb
                 (snd (writeMultipleFiles E (take i files) sb fs)))
        \<and> (success (?rs ! i) \<longrightarrow>
             snd (writeMultipleFiles E (take (Suc i) files) sb fs) (fst (files ! i)) =
               Some (snd (files ! i)))"
  proof (intro allI impI)
    fix i assume i: "i < length files"
    let ?before = "snd (writeMultipleFiles E (take i files) sb fs)"
    have r: "?rs ! i =
          fst (writeFileSafe (E i) (fst (files ! i)) (snd (files ! i)) sb ?before)"
      using writeEach_nth [OF i, of E 0 sb fs] rs
      by (simp add: writeMultipleFiles_filesystem)
    have f: "snd (writeMultipleFiles E (take (Suc i) files) sb fs) =
          snd (writeFileSafe (E i) (fst (files ! i)) (snd (files ! i)) sb ?before)"
      using writeEach_take_Suc [OF i, of E 0 sb fs]
      by (simp add: writeMultipleFiles_filesystem)
    have "success (?rs ! i) \<longrightarrow>
             snd (writeMultipleFiles E (take (Suc i) files) sb fs) (fst (files ! i)) =
               Some (snd (files ! i))"
      unfolding r f by (rule impI) (rule writeFileSafe_success_writes)
    with r f show "?rs ! i =
          fst (writeFileSafe (E i) (fst (files ! i)) (snd (files ! i)) sb ?before)
        \<and> snd (writeMultipleFiles E (take (Suc i) files) sb fs) =
          snd (writeFileSafe (E i) (fst (files ! i)) (snd (files ! i)) sb ?before)
        \<and> (success (?rs ! i) \<longrightarrow>
             snd (writeMultipleFiles E (take (Suc i) files) sb fs) (fst (files ! i)) =
               Some (snd (files ! i)))"
      by blast
  qed
  from tot suc fai sum all1 all2 len emp step show ?thesis by blast
qed

text \<open>
  Three files into an empty directory. With the rename rejected during the second call,
  the first and the third file are written and the second is not, and the counts are 3, 2
  and 1. With nothing rejected, all three are written, no call fails and \<^verbatim>\<open>success\<close>
  holds.
\<close>

theorem writeMultipleFiles_summary_witness:
  "total (fst (writeMultipleFiles (\<lambda>i op. i = 1 \<and> op = Rename)
        [(''types/User.ts'', ''u''), (''types/Post.ts'', ''p''), (''types/Cart.ts'', ''c'')]
        True Map.empty)) = 3
   \<and> successful (fst (writeMultipleFiles (\<lambda>i op. i = 1 \<and> op = Rename)
        [(''types/User.ts'', ''u''), (''types/Post.ts'', ''p''), (''types/Cart.ts'', ''c'')]
        True Map.empty)) = 2
   \<and> failed (fst (writeMultipleFiles (\<lambda>i op. i = 1 \<and> op = Rename)
        [(''types/User.ts'', ''u''), (''types/Post.ts'', ''p''), (''types/Cart.ts'', ''c'')]
        True Map.empty)) = 1
   \<and> \<not> all_success (fst (writeMultipleFiles (\<lambda>i op. i = 1 \<and> op = Rename)
        [(''types/User.ts'', ''u''), (''types/Post.ts'', ''p''), (''types/Cart.ts'', ''c'')]
        True Map.empty))
   \<and> map success (results (fst (writeMultipleFiles (\<lambda>i op. i = 1 \<and> op = Rename)
        [(''types/User.ts'', ''u''), (''types/Post.ts'', ''p''), (''types/Cart.ts'', ''c'')]
        True Map.empty))) = [True, False, True]
   \<and> snd (writeMultipleFiles (\<lambda>i op. i = 1 \<and> op = Rename)
        [(''types/User.ts'', ''u''), (''types/Post.ts'', ''p''), (''types/Cart.ts'', ''c'')]
        True Map.empty) ''types/User.ts'' = Some ''u''
   \<and> snd (writeMultipleFiles (\<lambda>i op. i = 1 \<and> op = Rename)
        [(''types/User.ts'', ''u''), (''types/Post.ts'', ''p''), (''types/Cart.ts'', ''c'')]
        True Map.empty) ''types/Post.ts'' = None
   \<and> snd (writeMultipleFiles (\<lambda>i op. i = 1 \<and> op = Rename)
        [(''types/User.ts'', ''u''), (''types/Post.ts'', ''p''), (''types/Cart.ts'', ''c'')]
        True Map.empty) ''types/Cart.ts'' = Some ''c''
   \<and> successful (fst (writeMultipleFiles (\<lambda>i op. False)
        [(''types/User.ts'', ''u''), (''types/Post.ts'', ''p''), (''types/Cart.ts'', ''c'')]
        True Map.empty)) = 3
   \<and> failed (fst (writeMultipleFiles (\<lambda>i op. False)
        [(''types/User.ts'', ''u''), (''types/Post.ts'', ''p''), (''types/Cart.ts'', ''c'')]
        True Map.empty)) = 0
   \<and> all_success (fst (writeMultipleFiles (\<lambda>i op. False)
        [(''types/User.ts'', ''u''), (''types/Post.ts'', ''p''), (''types/Cart.ts'', ''c'')]
        True Map.empty))
   \<and> snd (writeMultipleFiles (\<lambda>i op. False)
        [(''types/User.ts'', ''u''), (''types/Post.ts'', ''p''), (''types/Cart.ts'', ''c'')]
        True Map.empty) ''types/User.ts'' = Some ''u''
   \<and> snd (writeMultipleFiles (\<lambda>i op. False)
        [(''types/User.ts'', ''u''), (''types/Post.ts'', ''p''), (''types/Cart.ts'', ''c'')]
        True Map.empty) ''types/Post.ts'' = Some ''p''
   \<and> snd (writeMultipleFiles (\<lambda>i op. False)
        [(''types/User.ts'', ''u''), (''types/Post.ts'', ''p''), (''types/Cart.ts'', ''c'')]
        True Map.empty) ''types/Cart.ts'' = Some ''c''"
  using writeMultipleFiles_summary
    [of "\<lambda>i op. i = 1 \<and> op = Rename"
        "[(''types/User.ts'', ''u''), (''types/Post.ts'', ''p''), (''types/Cart.ts'', ''c'')]"
        True Map.empty]
    writeMultipleFiles_summary
    [of "\<lambda>i op. False"
        "[(''types/User.ts'', ''u''), (''types/Post.ts'', ''p''), (''types/Cart.ts'', ''c'')]"
        True Map.empty]
  by (simp add: writeMultipleFiles_def writer_defs Let_def)

section \<open>The watcher\<close>

lemmas watcher_defs =
  run_def advance_def expire_def regenerate_def settle_def debounce_def initial_def

text \<open>
  The flag \<^verbatim>\<open>isRegenerating\<close> is up exactly while one call of \<^verbatim>\<open>generateTypes\<close> has not
  settled, and there is never more than one. Each step of the watcher keeps this.
\<close>

lemma one_in_flight_expire:
  "inFlight w \<le> 1 \<and> (isRegenerating w \<longleftrightarrow> inFlight w = 1) \<Longrightarrow>
   inFlight (expire w) \<le> 1 \<and> (isRegenerating (expire w) \<longleftrightarrow> inFlight (expire w) = 1)"
  by (auto simp: expire_def regenerate_def split: option.splits)

lemma one_in_flight_advance:
  "inFlight w \<le> 1 \<and> (isRegenerating w \<longleftrightarrow> inFlight w = 1) \<Longrightarrow>
   inFlight (advance t w) \<le> 1 \<and> (isRegenerating (advance t w) \<longleftrightarrow> inFlight (advance t w) = 1)"
  using one_in_flight_expire [of w] by (simp add: advance_def split: option.splits)

lemma one_in_flight_debounce:
  "inFlight w \<le> 1 \<and> (isRegenerating w \<longleftrightarrow> inFlight w = 1) \<Longrightarrow>
   inFlight (debounce delay t p w) \<le> 1 \<and>
   (isRegenerating (debounce delay t p w) \<longleftrightarrow> inFlight (debounce delay t p w) = 1)"
  by (simp add: debounce_def)

lemma one_in_flight_settle:
  "inFlight w \<le> 1 \<and> (isRegenerating w \<longleftrightarrow> inFlight w = 1) \<Longrightarrow>
   inFlight (settle w) \<le> 1 \<and> (isRegenerating (settle w) \<longleftrightarrow> inFlight (settle w) = 1)"
  by (auto simp: settle_def)

lemma one_in_flight_deliver:
  "inFlight w \<le> 1 \<and> (isRegenerating w \<longleftrightarrow> inFlight w = 1) \<Longrightarrow>
   inFlight (deliver delay w ev) \<le> 1 \<and>
   (isRegenerating (deliver delay w ev) \<longleftrightarrow> inFlight (deliver delay w ev) = 1)"
  using one_in_flight_advance [of w] one_in_flight_debounce one_in_flight_settle
  by (cases ev) simp_all

lemma one_in_flight_run:
  "inFlight w \<le> 1 \<and> (isRegenerating w \<longleftrightarrow> inFlight w = 1) \<Longrightarrow>
   inFlight (run delay evs w) \<le> 1 \<and>
   (isRegenerating (run delay evs w) \<longleftrightarrow> inFlight (run delay evs w) = 1)"
proof (induction evs arbitrary: w)
  case Nil
  then show ?case by (simp add: run_def)
next
  case (Cons ev evs)
  from one_in_flight_deliver [OF Cons.prems, of delay ev]
  have "inFlight (run delay evs (deliver delay w ev)) \<le> 1 \<and>
        (isRegenerating (run delay evs (deliver delay w ev)) \<longleftrightarrow>
         inFlight (run delay evs (deliver delay w ev)) = 1)"
    by (rule Cons.IH)
  then show ?case by (simp add: run_def)
qed

text \<open>
  C3, as amended. The claim: a change that arrives while a run is in flight is followed
  by another run once the current one completes, and at most one run is in flight at a
  time. The source keeps no pending set: the event only sets the debounce timer, and the
  callback returns at once when it finds \<^verbatim>\<open>isRegenerating\<close> set. So: after any sequence of
  events at most one run is in flight, also once the pending timer has expired; a timer
  that expires while a run is in flight is dropped, and nothing but the timer changes; a
  timer that expires when no run is in flight starts a run for its path.
\<close>

theorem trigger_while_running_is_dropped:
  "inFlight (run delay evs initial) \<le> 1
   \<and> inFlight (expire (run delay evs initial)) \<le> 1
   \<and> (isRegenerating w \<longrightarrow> expire w = w\<lparr>timeoutId := None\<rparr>)
   \<and> (\<not> isRegenerating w' \<and> timeoutId w' = Some (due, changedPath) \<longrightarrow>
        started (expire w') = started w' @ [(due, changedPath)] \<and> isRegenerating (expire w'))"
proof -
  have i: "inFlight initial \<le> 1 \<and> (isRegenerating initial \<longleftrightarrow> inFlight initial = 1)"
    by (simp add: initial_def)
  from one_in_flight_run [OF i, of delay evs]
  have r: "inFlight (run delay evs initial) \<le> 1 \<and>
     (isRegenerating (run delay evs initial) \<longleftrightarrow> inFlight (run delay evs initial) = 1)" .
  from one_in_flight_expire [OF r] r
  have "inFlight (run delay evs initial) \<le> 1 \<and> inFlight (expire (run delay evs initial)) \<le> 1"
    by simp
  moreover have "isRegenerating w \<longrightarrow> expire w = w\<lparr>timeoutId := None\<rparr>"
    by (auto simp: expire_def regenerate_def split: option.splits)
  moreover have "\<not> isRegenerating w' \<and> timeoutId w' = Some (due, changedPath) \<longrightarrow>
        started (expire w') = started w' @ [(due, changedPath)] \<and> isRegenerating (expire w')"
    by (simp add: expire_def regenerate_def)
  ultimately show ?thesis by blast
qed

text \<open>
  A run starts at 300 and a change arrives at 400. While the run lasts, the timer set for
  700 is dropped when it expires; had the run settled at 600, the timer would start the
  second run.
\<close>

theorem trigger_while_running_is_dropped_witness:
  "inFlight (run 300 [Change 0 ''User.js'', Change 400 ''Post.js'', Settled 1000] initial) \<le> 1
   \<and> isRegenerating (run 300 [Change 0 ''User.js'', Change 400 ''Post.js''] initial)
   \<and> expire (run 300 [Change 0 ''User.js'', Change 400 ''Post.js''] initial) =
       (run 300 [Change 0 ''User.js'', Change 400 ''Post.js''] initial)\<lparr>timeoutId := None\<rparr>
   \<and> \<not> isRegenerating
         (run 300 [Change 0 ''User.js'', Change 400 ''Post.js'', Settled 600] initial)
   \<and> timeoutId (run 300 [Change 0 ''User.js'', Change 400 ''Post.js'', Settled 600] initial)
       = Some (700, ''Post.js'')
   \<and> started (expire
         (run 300 [Change 0 ''User.js'', Change 400 ''Post.js'', Settled 600] initial))
       = [(300, ''User.js''), (700, ''Post.js'')]"
  using trigger_while_running_is_dropped
    [of 300 "[Change 0 ''User.js'', Change 400 ''Post.js'', Settled 1000]"
        "run 300 [Change 0 ''User.js'', Change 400 ''Post.js''] initial"
        "run 300 [Change 0 ''User.js'', Change 400 ''Post.js'', Settled 600] initial"
        700 "''Post.js''"]
  by (simp add: watcher_defs)

text \<open>
  The claim as it is written fails on this trace: the change to \<^verbatim>\<open>Post.js\<close> arrives at
  400, while the run begun at 300 is in flight; its timer expires at 700, before the run
  settles at 1000, and is dropped. In the end no timer is pending, no run is in flight,
  and the only run ever started is the first one.
\<close>

theorem change_while_running_counterexample:
  "isRegenerating (advance 400 (run 300 [Change 0 ''User.js''] initial))
   \<and> started (expire
        (run 300 [Change 0 ''User.js'', Change 400 ''Post.js'', Settled 1000] initial))
       = [(300, ''User.js'')]
   \<and> timeoutId (expire
        (run 300 [Change 0 ''User.js'', Change 400 ''Post.js'', Settled 1000] initial))
       = None
   \<and> \<not> isRegenerating (expire
        (run 300 [Change 0 ''User.js'', Change 400 ''Post.js'', Settled 1000] initial))"
  by (simp add: watcher_defs)

section \<open>Debouncing a burst\<close>

lemma run_Cons: "run delay (ev # evs) w = run delay evs (deliver delay w ev)"
  by (simp add: run_def)

lemma within_keeps_timer:
  assumes "within delay (fst e + delay) evs"
    and "timeoutId w = Some (fst e + delay, snd e)"
  shows "timeoutId (run delay evs w) =
           Some (fst (lastChange e evs) + delay, snd (lastChange e evs))
       \<and> started (run delay evs w) = started w"
  using assms
proof (induction evs arbitrary: e w)
  case Nil
  then show ?case by (simp add: run_def)
next
  case (Cons ev evs)
  show ?case
  proof (cases ev)
    case (Change t p)
    let ?w = "deliver delay w ev"
    from Cons.prems Change have lt: "t < fst e + delay"
      and rest: "within delay (fst (t, p) + delay) evs" by simp_all
    have w2: "?w = w\<lparr>timeoutId := Some (t + delay, p)\<rparr>"
      using Cons.prems(2) lt Change by (simp add: advance_def debounce_def)
    then have "timeoutId ?w = Some (fst (t, p) + delay, snd (t, p))" by simp
    from Cons.IH [OF rest this] w2 Change
    show ?thesis by (simp add: run_Cons)
  next
    case (Settled t)
    let ?w = "deliver delay w ev"
    from Cons.prems Settled have lt: "t < fst e + delay"
      and rest: "within delay (fst e + delay) evs" by simp_all
    have "?w = settle w"
      using Cons.prems(2) lt Settled by (simp add: advance_def)
    then have t: "timeoutId ?w = Some (fst e + delay, snd e)" and s: "started ?w = started w"
      using Cons.prems(2) by (simp_all add: settle_def)
    from Cons.IH [OF rest t] s Settled
    show ?thesis by (simp add: run_Cons)
  qed
qed


text \<open>
  C7, as amended. The claim: a burst of two or more change events within one debounce
  window triggers exactly one regeneration run, timed from the most recent event. The
  timer does fire once, but its callback starts a run only when none is in flight. So: for
  a change at time t followed by events that each arrive before the pending timer is due
  (further changes, which set the timer anew, and settlings of a run), the timer left
  pending is the one of the last change, no run starts during the burst, and when that
  timer expires, the delay after the last change, exactly one run starts if no run is in
  flight then, and none if one is. This covers a burst of one event as well.
\<close>

theorem burst_fires_once:
  assumes "within delay (t + delay) evs"
  shows "timeoutId (run delay (Change t changedPath # evs) w) =
           Some (fst (lastChange (t, changedPath) evs) + delay,
                 snd (lastChange (t, changedPath) evs))
       \<and> started (run delay (Change t changedPath # evs) w) = started (advance t w)
       \<and> started (expire (run delay (Change t changedPath # evs) w)) =
           (if isRegenerating (run delay (Change t changedPath # evs) w)
            then started (advance t w)
            else started (advance t w) @
                   [(fst (lastChange (t, changedPath) evs) + delay,
                     snd (lastChange (t, changedPath) evs))])"
proof -
  let ?w = "deliver delay w (Change t changedPath)"
  have t: "timeoutId ?w = Some (fst (t, changedPath) + delay, snd (t, changedPath))"
    and s: "started ?w = started (advance t w)"
    by (simp_all add: debounce_def)
  from assms have "within delay (fst (t, changedPath) + delay) evs" by simp
  from within_keeps_timer [OF this t] s
  have r: "timeoutId (run delay (Change t changedPath # evs) w) =
           Some (fst (lastChange (t, changedPath) evs) + delay, snd (lastChange (t, changedPath) evs))"
    and r2: "started (run delay (Change t changedPath # evs) w) = started (advance t w)"
    by (simp_all add: run_Cons)
  show ?thesis
    using r r2 by (simp add: expire_def regenerate_def)
qed


text \<open>
  Three changes within the default delay of 300 at an idle watcher: one run, at 590, for
  the last path.
\<close>

theorem burst_fires_once_witness:
  "within 300 (0 + 300) [Change 120 ''User.js'', Change 290 ''Post.js'']
   \<and> debounceDelay None None = 300
   \<and> \<not> isRegenerating
         (run 300 [Change 0 ''User.js'', Change 120 ''User.js'', Change 290 ''Post.js''] initial)
   \<and> started (expire
         (run 300 [Change 0 ''User.js'', Change 120 ''User.js'', Change 290 ''Post.js''] initial))
       = [(590, ''Post.js'')]"
  using burst_fires_once
    [of 300 0 "[Change 120 ''User.js'', Change 290 ''Post.js'']" "''User.js''" initial]
  by (simp add: watcher_defs debounceDelay_def)

text \<open>
  The claim as it is written fails for a burst that arrives during a run: the changes at
  400 and 500 lie within one window, the run begun at 300 settles at 1000 only, and the
  burst starts no run at all.
\<close>

theorem burst_while_running_counterexample:
  "within 300 (400 + 300) [Change 500 ''Cart.js'']
   \<and> started (advance 400 (run 300 [Change 0 ''User.js''] initial)) = [(300, ''User.js'')]
   \<and> started (expire
        (run 300 [Change 0 ''User.js'', Change 400 ''Post.js'', Change 500 ''Cart.js'',
                  Settled 1000] initial))
       = [(300, ''User.js'')]"
  by (simp add: watcher_defs)

end
